theory Spec2Isabelle
  imports Complex_Main
begin

section \<open>Python values handled by the client\<close>

text \<open>
  The client (\<^verbatim>\<open>hobuilder/api.py\<close>) works on the values that \<^verbatim>\<open>http_response.json()\<close>
  returns: \<^verbatim>\<open>None\<close>, booleans, integers, floats, strings, lists and dictionaries.
  A dictionary keeps its insertion order and has no repeated key; it is modelled as an
  association list, and the theorems that depend on the absence of repeated keys say so
  (\<open>distinct (map fst kvs)\<close>). A float is kept as the exact rational it denotes, or as
  one of the three special values the decoder also accepts. Strings are lists of
  \<^typ>\<open>char\<close>, a \<^typ>\<open>char\<close> standing for the code point of the same number (below 256).
\<close>

datatype pyfloat = Finite rat | PosInf | NegInf | NaN

datatype json =
    JNull
  | JBool bool
  | JInt int
  | JFloat pyfloat
  | JStr string
  | JList "json list"
  | JObj "(string \<times> json) list"

text \<open>
  The argument of the module's own exception class \<^verbatim>\<open>Error\<close>. \<open>Unexpected_error b\<close>
  stands for the formatted string \<^verbatim>\<open>'Unexpected error: %r' % b\<close> (the text of Python's
  \<^verbatim>\<open>repr\<close> is not expanded); \<open>Message v\<close> is the value \<open>v\<close> passed as it is.
\<close>

datatype message = Unexpected_error json | Message json

text \<open>
  Exceptions. \<open>Error\<close> and \<open>APIUsageExceededRateLimit\<close> are the two classes the module
  defines (the second a subclass of the first); the others are Python's built-in
  exceptions raised by the operations the code uses, \<open>PyException\<close> is the bare
  \<^verbatim>\<open>Exception\<close> raised by \<^verbatim>\<open>Model.__init__\<close>, and \<open>RequestException\<close> is a failure
  of \<^verbatim>\<open>requests.get\<close> or of the JSON decoding.
\<close>

datatype py_error =
    Error message
  | APIUsageExceededRateLimit json
  | KeyError string
  | TypeError
  | AttributeError
  | ValueError
  | OverflowError
  | PyException
  | RequestException

text \<open>The class of an exception, as an \<^verbatim>\<open>except\<close> clause or a caller sees it.\<close>

datatype exn_class =
    Error_class | APIUsageExceededRateLimit_class | KeyError_class | TypeError_class
  | AttributeError_class | ValueError_class | OverflowError_class | PyException_class
  | RequestException_class

fun class_of :: "py_error \<Rightarrow> exn_class" where
  "class_of (Error m) = Error_class"
| "class_of (APIUsageExceededRateLimit v) = APIUsageExceededRateLimit_class"
| "class_of (KeyError k) = KeyError_class"
| "class_of TypeError = TypeError_class"
| "class_of AttributeError = AttributeError_class"
| "class_of ValueError = ValueError_class"
| "class_of OverflowError = OverflowError_class"
| "class_of PyException = PyException_class"
| "class_of RequestException = RequestException_class"

text \<open>
  \<^verbatim>\<open>isinstance(e, Error)\<close>: the exception belongs to the hierarchy the module defines,
  \<^verbatim>\<open>class Error(Exception)\<close> and \<^verbatim>\<open>class APIUsageExceededRateLimit(Error)\<close>.
\<close>

fun isinstance_Error :: "py_error \<Rightarrow> bool" where
  "isinstance_Error (Error m) = True"
| "isinstance_Error (APIUsageExceededRateLimit v) = True"
| "isinstance_Error e = False"

subsection \<open>Dictionaries\<close>

text \<open>\<^verbatim>\<open>d[k] = v\<close>: an existing key keeps its position, a new key goes to the end.\<close>

fun dict_set :: "(string \<times> 'v) list \<Rightarrow> string \<Rightarrow> 'v \<Rightarrow> (string \<times> 'v) list" where
  "dict_set [] k v = [(k, v)]"
| "dict_set ((k', v') # r) k v =
     (if k' = k then (k, v) # r else (k', v') # dict_set r k v)"

text \<open>\<^verbatim>\<open>d.update(e)\<close>: the entries of \<open>e\<close> are stored into \<open>d\<close> one by one, in order.\<close>

fun dict_update :: "(string \<times> 'v) list \<Rightarrow> (string \<times> 'v) list \<Rightarrow> (string \<times> 'v) list" where
  "dict_update d [] = d"
| "dict_update d ((k, v) # r) = dict_update (dict_set d k v) r"

subsection \<open>Built-in operations\<close>

text \<open>\<^verbatim>\<open>needle in hay\<close> on two strings: \<open>needle\<close> occurs in \<open>hay\<close> as a substring.\<close>

fun starts_with :: "string \<Rightarrow> string \<Rightarrow> bool" where
  "starts_with [] hay = True"
| "starts_with (c # cs) [] = False"
| "starts_with (c # cs) (h # hs) = (c = h \<and> starts_with cs hs)"

fun str_contains :: "string \<Rightarrow> string \<Rightarrow> bool" where
  "str_contains needle [] = (needle = [])"
| "str_contains needle (h # hs) = (starts_with needle (h # hs) \<or> str_contains needle hs)"

text \<open>
  \<^verbatim>\<open>k in x\<close> for a string \<open>k\<close>: key membership on a dictionary, element membership on a
  list, substring on a string, \<^verbatim>\<open>TypeError\<close> on everything else.
\<close>

fun py_in :: "string \<Rightarrow> json \<Rightarrow> py_error + bool" where
  "py_in k (JObj kvs) = Inr (k \<in> set (map fst kvs))"
| "py_in k (JList xs) = Inr (JStr k \<in> set xs)"
| "py_in k (JStr s) = Inr (str_contains k s)"
| "py_in k v = Inl TypeError"

text \<open>
  \<^verbatim>\<open>x[k]\<close> for a string \<open>k\<close>: the value on a dictionary (\<^verbatim>\<open>KeyError\<close> when absent),
  \<^verbatim>\<open>TypeError\<close> on everything else (lists and strings take integer indices only).
\<close>

fun py_getitem :: "json \<Rightarrow> string \<Rightarrow> py_error + json" where
  "py_getitem (JObj kvs) k = (case map_of kvs k of None \<Rightarrow> Inl (KeyError k) | Some v \<Rightarrow> Inr v)"
| "py_getitem v k = Inl TypeError"

text \<open>\<^verbatim>\<open>len(x)\<close>.\<close>

fun py_len :: "json \<Rightarrow> py_error + nat" where
  "py_len (JObj kvs) = Inr (length kvs)"
| "py_len (JList xs) = Inr (length xs)"
| "py_len (JStr s) = Inr (length s)"
| "py_len v = Inl TypeError"

text \<open>\<^verbatim>\<open>x.items()\<close>: only a dictionary has the method.\<close>

fun py_items :: "json \<Rightarrow> py_error + (string \<times> json) list" where
  "py_items (JObj kvs) = Inr kvs"
| "py_items v = Inl AttributeError"

text \<open>
  \<^verbatim>\<open>x != 1\<close> is decided by \<^verbatim>\<open>x == 1\<close>: numbers compare by value across \<^verbatim>\<open>int\<close>,
  \<^verbatim>\<open>bool\<close> and \<^verbatim>\<open>float\<close> (\<^verbatim>\<open>True == 1\<close>, \<^verbatim>\<open>1.0 == 1\<close>); nothing else equals 1.
\<close>

fun py_eq_one :: "json \<Rightarrow> bool" where
  "py_eq_one (JInt n) = (n = 1)"
| "py_eq_one (JBool b) = b"
| "py_eq_one (JFloat (Finite r)) = (r = 1)"
| "py_eq_one v = False"

subsection \<open>The built-in \<^verbatim>\<open>int\<close>\<close>

text \<open>
  \<^verbatim>\<open>int(s)\<close> on a string: surrounding whitespace is dropped, then an optional sign, then
  decimal digits, where a single underscore may stand between two digits. Anything else
  is a \<^verbatim>\<open>ValueError\<close>, and so is a literal with more digits than the interpreter
  converts (4300 by default, \<^verbatim>\<open>sys.get_int_max_str_digits()\<close>; leading zeros count,
  underscores do not). Among the code points below 256 the whitespace \<^verbatim>\<open>int\<close> drops is
  the space, the controls 9 to 13, and the code points 0x85 and 0xA0 (the controls 0x1C
  to 0x1F are not dropped), and the decimal digits are \<^verbatim>\<open>0\<close> to \<^verbatim>\<open>9\<close>.
\<close>

definition is_space :: "char \<Rightarrow> bool" where
  "is_space c =
     (c \<in> set [CHR '' '', CHR 0x09, CHR 0x0A, CHR 0x0B, CHR 0x0C, CHR 0x0D,
                 CHR 0x85, CHR 0xA0])"

definition max_str_digits :: nat where
  "max_str_digits = 4300"

definition is_digit :: "char \<Rightarrow> bool" where
  "is_digit c = ((of_char CHR ''0'' :: nat) \<le> of_char c \<and> (of_char c :: nat) \<le> of_char CHR ''9'')"

definition digit_val :: "char \<Rightarrow> nat" where
  "digit_val c = (of_char c :: nat) - of_char CHR ''0''"

definition strip :: "string \<Rightarrow> string" where
  "strip s = rev (dropWhile is_space (rev (dropWhile is_space s)))"

fun parse_digits :: "nat \<Rightarrow> string \<Rightarrow> nat option" where
  "parse_digits acc [] = Some acc"
| "parse_digits acc [c] = (if is_digit c then Some (acc * 10 + digit_val c) else None)"
| "parse_digits acc (c # d # r) =
     (if is_digit c then parse_digits (acc * 10 + digit_val c) (d # r)
      else if c = CHR ''_'' \<and> is_digit d then parse_digits acc (d # r)
      else None)"

definition parse_nat :: "string \<Rightarrow> nat option" where
  "parse_nat s =
     (case s of
        [] \<Rightarrow> None
      | c # r \<Rightarrow>
          if is_digit c \<and> length (filter is_digit s) \<le> max_str_digits
          then parse_digits 0 s else None)"

definition int_of_str :: "string \<Rightarrow> py_error + int" where
  "int_of_str s =
     (case strip s of
        [] \<Rightarrow> Inl ValueError
      | c # r \<Rightarrow>
          if c = CHR ''-'' then
            (case parse_nat r of None \<Rightarrow> Inl ValueError | Some n \<Rightarrow> Inr (- int n))
          else if c = CHR ''+'' then
            (case parse_nat r of None \<Rightarrow> Inl ValueError | Some n \<Rightarrow> Inr (int n))
          else
            (case parse_nat (c # r) of None \<Rightarrow> Inl ValueError | Some n \<Rightarrow> Inr (int n)))"

text \<open>
  \<^verbatim>\<open>int(v)\<close>: an integer is itself, a boolean is 0 or 1, a float is truncated towards
  zero (\<^verbatim>\<open>nan\<close> gives \<^verbatim>\<open>ValueError\<close>, an infinity \<^verbatim>\<open>OverflowError\<close>), a string is
  parsed, and \<^verbatim>\<open>None\<close>, lists and dictionaries give \<^verbatim>\<open>TypeError\<close>.
\<close>

fun py_int :: "json \<Rightarrow> py_error + int" where
  "py_int (JInt n) = Inr n"
| "py_int (JBool b) = Inr (if b then 1 else 0)"
| "py_int (JFloat (Finite r)) = Inr (if r < 0 then - \<lfloor>- r\<rfloor> else \<lfloor>r\<rfloor>)"
| "py_int (JFloat NaN) = Inl ValueError"
| "py_int (JFloat PosInf) = Inl OverflowError"
| "py_int (JFloat NegInf) = Inl OverflowError"
| "py_int (JStr s) = int_of_str s"
| "py_int JNull = Inl TypeError"
| "py_int (JList xs) = Inl TypeError"
| "py_int (JObj kvs) = Inl TypeError"

section \<open>Entity records: \<^verbatim>\<open>Model\<close>\<close>

text \<open>
  A \<^verbatim>\<open>Model\<close> instance is its attribute dictionary \<^verbatim>\<open>__dict__\<close>. The constructor
  refuses anything but a dictionary, then walks \<^verbatim>\<open>d.items()\<close> and stores each value
  under its key, the value of the key \<^verbatim>\<open>id\<close> passed through \<^verbatim>\<open>int\<close>.
\<close>

type_synonym model = "(string \<times> json) list"

fun Model_items :: "(string \<times> json) list \<Rightarrow> model \<Rightarrow> py_error + model" where
  "Model_items [] self = Inr self"
| "Model_items ((k, v) # r) self =
     (if k = ''id'' then
        (case py_int v of
           Inl e \<Rightarrow> Inl e
         | Inr n \<Rightarrow> Model_items r (dict_set self k (JInt n)))
      else Model_items r (dict_set self k v))"

fun Model_init :: "json \<Rightarrow> py_error + model" where
  "Model_init (JObj kvs) = Model_items kvs []"
| "Model_init d = Inl PyException"

section \<open>The mapper\<close>

text \<open>
  Both \<^verbatim>\<open>Mapper.extract_one\<close> (on \<^verbatim>\<open>data\<close>) and the loop body of
  \<^verbatim>\<open>Mapper.extract_all\<close> (on each \<^verbatim>\<open>object_scope\<close>) run the same four statements:
  \<^verbatim>\<open>
    relative_scopes = {model: scope for model, scope in data.items() if model != model_name}
    model_scope = data[model_name]
    model_scope.update(relative_scopes)
    model = Model(model_scope)
  \<close>
  \<^verbatim>\<open>update\<close> changes the dictionary \<^verbatim>\<open>data[model_name]\<close> in place, so the function
  returns, with the outcome, what the scope holds after the statements. The scope
  given is a decoded JSON value, a tree in which no two places hold the same
  dictionary. The value returned does not record that the sibling dictionaries are
  from then on shared between the primary scope and the scope: it tells what each
  place holds, and is not the input of a further call.
\<close>

definition relative_scopes :: "(string \<times> json) list \<Rightarrow> string \<Rightarrow> (string \<times> json) list" where
  "relative_scopes items model_name = filter (\<lambda>(model, scope). model \<noteq> model_name) items"

definition extract_scope :: "json \<Rightarrow> string \<Rightarrow> json \<times> (py_error + model)" where
  "extract_scope data model_name =
     (case py_items data of
        Inl e \<Rightarrow> (data, Inl e)
      | Inr items \<Rightarrow>
          (case py_getitem data model_name of
             Inl e \<Rightarrow> (data, Inl e)
           | Inr model_scope \<Rightarrow>
               (case model_scope of
                  JObj primary \<Rightarrow>
                    let merged = JObj (dict_update primary (relative_scopes items model_name))
                    in (JObj (dict_set items model_name merged), Model_init merged)
                | _ \<Rightarrow> (data, Inl AttributeError))))"

text \<open>\<^verbatim>\<open>Mapper.extract_one\<close>: \<^verbatim>\<open>None\<close> for an empty \<^verbatim>\<open>data\<close>, else the record.\<close>

definition extract_one :: "json \<Rightarrow> string \<Rightarrow> json \<times> (py_error + model option)" where
  "extract_one data model_name =
     (case py_len data of
        Inl e \<Rightarrow> (data, Inl e)
      | Inr n \<Rightarrow>
          if n = 0 then (data, Inr None)
          else (case extract_scope data model_name of
                  (data', Inl e) \<Rightarrow> (data', Inl e)
                | (data', Inr m) \<Rightarrow> (data', Inr (Some m))))"

text \<open>
  The loop of \<^verbatim>\<open>Mapper.extract_all\<close> over \<^verbatim>\<open>data.items()\<close>, with the collection built
  so far. It returns the entries as they are when the loop ends or raises.
\<close>

fun extract_all_loop ::
  "(string \<times> json) list \<Rightarrow> string \<Rightarrow> model list \<Rightarrow> (string \<times> json) list \<times> (py_error + model list)" where
  "extract_all_loop [] model_name collection = ([], Inr collection)"
| "extract_all_loop ((object_id, object_scope) # rest) model_name collection =
     (case extract_scope object_scope model_name of
        (scope', Inl e) \<Rightarrow> ((object_id, scope') # rest, Inl e)
      | (scope', Inr m) \<Rightarrow>
          (case extract_all_loop rest model_name (collection @ [m]) of
             (rest', res) \<Rightarrow> ((object_id, scope') # rest', res)))"

definition extract_all :: "json \<Rightarrow> string \<Rightarrow> json \<times> (py_error + model list option)" where
  "extract_all data model_name =
     (case py_len data of
        Inl e \<Rightarrow> (data, Inl e)
      | Inr n \<Rightarrow>
          if n = 0 then (data, Inr None)
          else (case py_items data of
                  Inl e \<Rightarrow> (data, Inl e)
                | Inr items \<Rightarrow>
                    (case extract_all_loop items model_name [] of
                       (items', Inl e) \<Rightarrow> (JObj items', Inl e)
                     | (items', Inr collection) \<Rightarrow> (JObj items', Inr (Some collection)))))"

section \<open>The client\<close>

subsection \<open>Configuration and requests\<close>

datatype log_level = INFO | DEBUG

text \<open>
  \<^verbatim>\<open>Api.__init__\<close>. The method proxy behind \<^verbatim>\<open>client.Target.method(...)\<close> only
  forwards to \<^verbatim>\<open>call\<close> and is left out.
\<close>

record api =
  network_token :: json
  network_id :: json
  level :: log_level
  retry_count :: int

definition Api_init :: "json \<Rightarrow> json \<Rightarrow> bool \<Rightarrow> int \<Rightarrow> api" where
  "Api_init token ident debug retries =
     \<lparr>network_token = token, network_id = ident,
      level = (if debug then INFO else DEBUG), retry_count = retries\<rparr>"

definition ROOT :: string where
  "ROOT = ''http://api.hasoffers.com/v3/''"

text \<open>
  \<^verbatim>\<open>Request\<close>. The query string comes from the external package
  \<^verbatim>\<open>http_build_query\<close>, which is a parameter \<open>build\<close> here. The attribute
  \<^verbatim>\<open>method\<close> is the field \<open>method_name\<close>.
\<close>

record request =
  target :: string
  method_name :: string
  params :: "(string \<times> json) list"
  attempts :: int
  url :: string

definition build_url :: "((string \<times> json) list \<Rightarrow> string) \<Rightarrow> string \<Rightarrow> (string \<times> json) list \<Rightarrow> string" where
  "build_url build tgt ps = (ROOT @ tgt @ ''.json?'') @ build ps"

definition Request_init ::
  "((string \<times> json) list \<Rightarrow> string) \<Rightarrow> string \<Rightarrow> string \<Rightarrow> (string \<times> json) list \<Rightarrow> request" where
  "Request_init build tgt meth ps =
     \<lparr>target = tgt, method_name = meth, params = ps, attempts = 0, url = build_url build tgt ps\<rparr>"

definition create_request ::
  "api \<Rightarrow> ((string \<times> json) list \<Rightarrow> string) \<Rightarrow> string \<Rightarrow> string \<Rightarrow> (string \<times> json) list option \<Rightarrow> request" where
  "create_request self build tgt meth ps =
     Request_init build tgt meth
       (dict_update
          [(''NetworkId'', network_id self), (''NetworkToken'', network_token self),
           (''Method'', JStr meth)]
          (case ps of None \<Rightarrow> [] | Some p \<Rightarrow> p))"

subsection \<open>Responses\<close>

text \<open>\<^verbatim>\<open>json_response['response'][k]\<close>.\<close>

definition envelope_field :: "json \<Rightarrow> string \<Rightarrow> py_error + json" where
  "envelope_field body k =
     (case py_getitem body ''response'' of Inl e \<Rightarrow> Inl e | Inr r \<Rightarrow> py_getitem r k)"

record response =
  request :: request
  json_response :: json
  data :: json
  status :: json
  httpStatus :: json
  errors :: json
  errorMessage :: json

text \<open>\<^verbatim>\<open>Response.__init__\<close>: the five fields are read in the order of the source.\<close>

definition Response_init :: "request \<Rightarrow> json \<Rightarrow> py_error + response" where
  "Response_init req body =
     (case envelope_field body ''data'' of Inl e \<Rightarrow> Inl e | Inr d \<Rightarrow>
      (case envelope_field body ''status'' of Inl e \<Rightarrow> Inl e | Inr s \<Rightarrow>
       (case envelope_field body ''httpStatus'' of Inl e \<Rightarrow> Inl e | Inr h \<Rightarrow>
        (case envelope_field body ''errors'' of Inl e \<Rightarrow> Inl e | Inr es \<Rightarrow>
         (case envelope_field body ''errorMessage'' of Inl e \<Rightarrow> Inl e | Inr m \<Rightarrow>
            Inr \<lparr>request = req, json_response = body, data = d, status = s,
                 httpStatus = h, errors = es, errorMessage = m\<rparr>)))))"

subsection \<open>Classifying a body\<close>

text \<open>
  The test of \<^verbatim>\<open>send_request\<close>:
  \<^verbatim>\<open>'response' not in json_response or 'status' not in json_response['response']
     or json_response['response']['status'] != 1\<close>,
  evaluated from left to right; an operand that raises ends the evaluation.
\<close>

definition not_success :: "json \<Rightarrow> py_error + bool" where
  "not_success body =
     (case py_in ''response'' body of Inl e \<Rightarrow> Inl e | Inr has_response \<Rightarrow>
        if \<not> has_response then Inr True
        else (case py_getitem body ''response'' of Inl e \<Rightarrow> Inl e | Inr r \<Rightarrow>
          (case py_in ''status'' r of Inl e \<Rightarrow> Inl e | Inr has_status \<Rightarrow>
             if \<not> has_status then Inr True
             else (case envelope_field body ''status'' of Inl e \<Rightarrow> Inl e
                   | Inr s \<Rightarrow> Inr (\<not> py_eq_one s)))))"

text \<open>
  \<^verbatim>\<open>Api.cast_error\<close> returns the exception to raise (\<open>Inr\<close>); evaluating it can itself
  raise (\<open>Inl\<close>), for instance when \<^verbatim>\<open>errorMessage\<close> is missing.
\<close>

definition cast_error :: "json \<Rightarrow> py_error + py_error" where
  "cast_error response_body =
     (case py_in ''response'' response_body of Inl e \<Rightarrow> Inl e | Inr has_response \<Rightarrow>
        if \<not> has_response then Inr (Error (Unexpected_error response_body))
        else (case py_getitem response_body ''response'' of Inl e \<Rightarrow> Inl e | Inr r \<Rightarrow>
          (case py_in ''status'' r of Inl e \<Rightarrow> Inl e | Inr has_status \<Rightarrow>
             if \<not> has_status then Inr (Error (Unexpected_error response_body))
             else (case envelope_field response_body ''errorMessage'' of Inl e \<Rightarrow> Inl e
                   | Inr m \<Rightarrow>
                     (case py_in ''API usage exceeded rate limit'' m of Inl e \<Rightarrow> Inl e
                      | Inr limited \<Rightarrow>
                          if limited then Inr (APIUsageExceededRateLimit m)
                          else Inr (Error (Message m)))))))"

subsection \<open>Sending a request\<close>

text \<open>
  What \<^verbatim>\<open>send_request\<close> does to the outside world is a trace of events: a GET of a URL,
  and a sleep (\<^verbatim>\<open>time.sleep(0.25)\<close>, written in milliseconds). Log lines are not
  recorded. The server is a parameter: \<open>server u n\<close> is the decoded body, or the failure,
  of a GET of \<open>u\<close> issued when \<open>n\<close> GETs have been issued before.
\<close>

datatype event = Get string | Sleep_ms nat

fun is_get :: "event \<Rightarrow> bool" where
  "is_get (Get u) = True"
| "is_get (Sleep_ms d) = False"

definition gets :: "event list \<Rightarrow> nat" where
  "gets trace = length (filter is_get trace)"

definition sleeps :: "event list \<Rightarrow> nat list" where
  "sleeps trace = concat (map (\<lambda>ev. case ev of Sleep_ms d \<Rightarrow> [d] | Get u \<Rightarrow> []) trace)"

text \<open>
  \<^verbatim>\<open>Api.send_request\<close>. The request object is mutated (\<^verbatim>\<open>request.attempts += 1\<close>) and
  the same object is passed to the recursive call, so the function takes the request
  and returns it with the trace and the outcome. A retry happens only inside
  \<^verbatim>\<open>except APIUsageExceededRateLimit\<close>; every other exception leaves the function.
\<close>

function send_request ::
  "api \<Rightarrow> (string \<Rightarrow> nat \<Rightarrow> py_error + json) \<Rightarrow> request \<Rightarrow> event list
     \<Rightarrow> request \<times> event list \<times> (py_error + response)" where
  "send_request self server req trace =
     (let req1 = req\<lparr>attempts := attempts req + 1\<rparr>;
          trace1 = trace @ [Get (url req1)]
      in case server (url req1) (gets trace) of
           Inl e \<Rightarrow> (req1, trace1, Inl e)
         | Inr body \<Rightarrow>
             (case not_success body of
                Inl e \<Rightarrow> (req1, trace1, Inl e)
              | Inr False \<Rightarrow> (req1, trace1, Response_init req1 body)
              | Inr True \<Rightarrow>
                  (case cast_error body of
                     Inl e \<Rightarrow> (req1, trace1, Inl e)
                   | Inr (APIUsageExceededRateLimit m) \<Rightarrow>
                       if retry_count self > 1 \<and> attempts req1 < retry_count self
                       then send_request self server req1 (trace1 @ [Sleep_ms 250])
                       else (req1, trace1,
                             (case cast_error body of Inl e \<Rightarrow> Inl e | Inr e \<Rightarrow> Inl e))
                   | Inr e \<Rightarrow> (req1, trace1, Inl e))))"
  by pat_completeness auto
termination
  by (relation "measure (\<lambda>(self, server, req, trace). nat (retry_count self - attempts req))") auto

declare send_request.simps [simp del]

text \<open>\<^verbatim>\<open>Api.call\<close>.\<close>

definition call ::
  "api \<Rightarrow> ((string \<times> json) list \<Rightarrow> string) \<Rightarrow> (string \<Rightarrow> nat \<Rightarrow> py_error + json)
     \<Rightarrow> string \<Rightarrow> string \<Rightarrow> (string \<times> json) list option \<Rightarrow> event list
     \<Rightarrow> request \<times> event list \<times> (py_error + response)" where
  "call self build server tgt meth ps trace =
     send_request self server (create_request self build tgt meth ps) trace"

subsection \<open>Extraction from a response\<close>

text \<open>
  \<^verbatim>\<open>self.data\<close> is the very object \<^verbatim>\<open>self.json_response['response']['data']\<close>: a change
  made to it by the mapper shows in both. \<open>store_data\<close> writes the changed value at both
  places.
\<close>

definition set_envelope_data :: "json \<Rightarrow> json \<Rightarrow> json" where
  "set_envelope_data body d =
     (case body of
        JObj outer \<Rightarrow>
          (case map_of outer ''response'' of
             Some (JObj r) \<Rightarrow> JObj (dict_set outer ''response'' (JObj (dict_set r ''data'' d)))
           | _ \<Rightarrow> body)
      | _ \<Rightarrow> body)"

definition store_data :: "response \<Rightarrow> json \<Rightarrow> response" where
  "store_data self d = self\<lparr>data := d, json_response := set_envelope_data (json_response self) d\<rparr>"

text \<open>\<^verbatim>\<open>model_name or self.request.target\<close>: \<^verbatim>\<open>None\<close> and the empty string are falsy.\<close>

definition name_or_target :: "response \<Rightarrow> string option \<Rightarrow> string" where
  "name_or_target self model_name =
     (case model_name of
        None \<Rightarrow> target (request self)
      | Some n \<Rightarrow> if n = [] then target (request self) else n)"

text \<open>
  A \<^typ>\<open>response\<close> is a response whose \<^verbatim>\<open>data\<close> is as the decoder built it: a tree, in
  which no two places hold the same dictionary. An extraction ends that:
  \<^verbatim>\<open>model_scope.update(relative_scopes)\<close> stores the sibling dictionaries themselves, so
  afterwards \<^verbatim>\<open>data[model_name][k]\<close> and \<^verbatim>\<open>data[k]\<close> are one object, and a later
  extraction under another name changes both. The state after an extraction is
  therefore of a type of its own: \<open>Extracted r\<close> gives, in \<open>r\<close>, what every place of the
  response holds after the call, and is not an input of the two functions below. What a
  second extraction does is not modelled.
\<close>

datatype extracted = Extracted (contents: response)

text \<open>\<^verbatim>\<open>Response.extract_one\<close>, on a response not extracted from before.\<close>

definition Response_extract_one ::
  "response \<Rightarrow> string option \<Rightarrow> extracted \<times> (py_error + model option)" where
  "Response_extract_one self model_name =
     (case extract_one (data self) (name_or_target self model_name) of
        (d', res) \<Rightarrow> (Extracted (store_data self d'), res))"

text \<open>
  \<^verbatim>\<open>Response.extract_all\<close>, on a response not extracted from before: a paged answer
  keeps its records under \<^verbatim>\<open>data['data']\<close>.
\<close>

definition Response_extract_all ::
  "response \<Rightarrow> string option \<Rightarrow> extracted \<times> (py_error + model list option)" where
  "Response_extract_all self model_name =
     (case py_in ''page'' (data self) of
        Inl e \<Rightarrow> (Extracted self, Inl e)
      | Inr paged \<Rightarrow>
          if paged then
            (case py_getitem (data self) ''data'' of
               Inl e \<Rightarrow> (Extracted self, Inl e)
             | Inr inner \<Rightarrow>
                 (case extract_all inner (name_or_target self model_name) of
                    (inner', res) \<Rightarrow>
                      (case data self of
                         JObj kvs \<Rightarrow>
                           (Extracted (store_data self (JObj (dict_set kvs ''data'' inner'))), res)
                       | _ \<Rightarrow> (Extracted self, res))))
          else
            (case extract_all (data self) (name_or_target self model_name) of
               (d', res) \<Rightarrow> (Extracted (store_data self d'), res)))"

section \<open>Notions used in the statements\<close>

text \<open>
  A decoded JSON value has no dictionary with a repeated key, at any depth.
\<close>

fun wf_json :: "json \<Rightarrow> bool" where
  "wf_json (JObj kvs) = (distinct (map fst kvs) \<and> list_all (\<lambda>kv. wf_json (snd kv)) kvs)"
| "wf_json (JList xs) = list_all wf_json xs"
| "wf_json v = True"

text \<open>
  \<open>id_coerced kv kv'\<close>: the entry \<open>kv'\<close> of a record is the entry \<open>kv\<close> of a scope with
  the same key, and with the same value unless the key is \<^verbatim>\<open>id\<close>, where the value is
  the integer \<^verbatim>\<open>int\<close> gives.
\<close>

definition id_coerced :: "string \<times> json \<Rightarrow> string \<times> json \<Rightarrow> bool" where
  "id_coerced kv kv' =
     (fst kv' = fst kv \<and>
      (if fst kv = ''id''
       then (case py_int (snd kv) of Inl e \<Rightarrow> False | Inr n \<Rightarrow> snd kv' = JInt n)
       else snd kv' = snd kv))"

text \<open>
  \<open>record_of model_name scope m\<close>: \<open>m\<close> is, entry by entry and in the same order, the
  primary scope of \<open>scope\<close> updated with its sibling scopes, the \<^verbatim>\<open>id\<close> coerced.
\<close>

definition record_of :: "string \<Rightarrow> json \<Rightarrow> model \<Rightarrow> bool" where
  "record_of model_name scope m =
     (case scope of
        JObj items \<Rightarrow>
          (case map_of items model_name of
             Some (JObj primary) \<Rightarrow>
               list_all2 id_coerced (dict_update primary (relative_scopes items model_name)) m
           | _ \<Rightarrow> False)
      | _ \<Rightarrow> False)"

text \<open>
  \<open>same_outside k d d'\<close>: the dictionaries \<open>d\<close> and \<open>d'\<close> have the same keys in the same
  order and the same values, except possibly under the key \<open>k\<close>; a value that is not a
  dictionary is unchanged.
\<close>

definition same_entry_outside :: "string \<Rightarrow> string \<times> json \<Rightarrow> string \<times> json \<Rightarrow> bool" where
  "same_entry_outside k kv kv' = (fst kv' = fst kv \<and> (fst kv = k \<or> snd kv' = snd kv))"

definition same_outside :: "string \<Rightarrow> json \<Rightarrow> json \<Rightarrow> bool" where
  "same_outside k d d' =
     (case d of
        JObj kvs \<Rightarrow> (case d' of JObj kvs' \<Rightarrow> list_all2 (same_entry_outside k) kvs kvs' | _ \<Rightarrow> False)
      | _ \<Rightarrow> d' = d)"

text \<open>
  \<open>objects_same_outside k d d'\<close>: \<open>d\<close> and \<open>d'\<close> map the same object identifiers, in the
  same order, to scopes that are the same outside the key \<open>k\<close>.
\<close>

definition same_object_outside :: "string \<Rightarrow> string \<times> json \<Rightarrow> string \<times> json \<Rightarrow> bool" where
  "same_object_outside k kv kv' = (fst kv' = fst kv \<and> same_outside k (snd kv) (snd kv'))"

definition objects_same_outside :: "string \<Rightarrow> json \<Rightarrow> json \<Rightarrow> bool" where
  "objects_same_outside k d d' =
     (case d of
        JObj kvs \<Rightarrow> (case d' of JObj kvs' \<Rightarrow> list_all2 (same_object_outside k) kvs kvs' | _ \<Rightarrow> False)
      | _ \<Rightarrow> d' = d)"

text \<open>
  A rate-limit envelope: a body with a \<^verbatim>\<open>response\<close> object that has a \<^verbatim>\<open>status\<close>
  different from 1 and an \<^verbatim>\<open>errorMessage\<close> string containing the text
  \<^verbatim>\<open>API usage exceeded rate limit\<close>.
\<close>

definition rate_limit_envelope :: "json \<Rightarrow> bool" where
  "rate_limit_envelope body =
     (case body of
        JObj kvs \<Rightarrow>
          (case map_of kvs ''response'' of
             Some (JObj r) \<Rightarrow>
               (case map_of r ''status'' of
                  Some s \<Rightarrow>
                    \<not> py_eq_one s \<and>
                    (case map_of r ''errorMessage'' of
                       Some (JStr m) \<Rightarrow> str_contains ''API usage exceeded rate limit'' m
                     | _ \<Rightarrow> False)
                | None \<Rightarrow> False)
           | _ \<Rightarrow> False)
      | _ \<Rightarrow> False)"

text \<open>A server that gives the same body to every GET.\<close>

definition always :: "json \<Rightarrow> string \<Rightarrow> nat \<Rightarrow> py_error + json" where
  "always body u n = Inr body"

subsection \<open>Notions for the state of a response\<close>

text \<open>
  \<open>other_fields_kept self self'\<close>: the request and the four fields beside \<^verbatim>\<open>data\<close> are
  the same in both responses.
\<close>

definition other_fields_kept :: "response \<Rightarrow> response \<Rightarrow> bool" where
  "other_fields_kept self self' =
     (request self' = request self \<and> status self' = status self \<and>
      httpStatus self' = httpStatus self \<and> errors self' = errors self \<and>
      errorMessage self' = errorMessage self)"

text \<open>
  \<open>shares_data self\<close>: the field \<^verbatim>\<open>data\<close> is what the envelope holds at
  \<^verbatim>\<open>['response']['data']\<close>, as \<^verbatim>\<open>Response.__init__\<close> sets it.
\<close>

definition shares_data :: "response \<Rightarrow> bool" where
  "shares_data self = (envelope_field (json_response self) ''data'' = Inr (data self))"

text \<open>
  \<open>envelope_same_outside_data body body'\<close>: the two envelopes differ at most in what
  their \<^verbatim>\<open>response\<close> objects hold under \<^verbatim>\<open>data\<close>.
\<close>

definition envelope_same_outside_data :: "json \<Rightarrow> json \<Rightarrow> bool" where
  "envelope_same_outside_data body body' =
     (same_outside ''response'' body body' \<and>
      (case py_getitem body ''response'' of
         Inl e \<Rightarrow> True
       | Inr r \<Rightarrow>
           (case py_getitem body' ''response'' of
              Inl e \<Rightarrow> True
            | Inr r' \<Rightarrow> same_outside ''data'' r r')))"

text \<open>
  \<open>paged_same_outside k d d'\<close>: the paged answers \<open>d\<close> and \<open>d'\<close> differ at most under
  \<^verbatim>\<open>data\<close>, and there the objects are the same outside the key \<open>k\<close>.
\<close>

definition paged_same_outside :: "string \<Rightarrow> json \<Rightarrow> json \<Rightarrow> bool" where
  "paged_same_outside k d d' =
     (same_outside ''data'' d d' \<and>
      (case py_getitem d ''data'' of
         Inl e \<Rightarrow> True
       | Inr inner \<Rightarrow>
           (case py_getitem d' ''data'' of
              Inl e \<Rightarrow> True
            | Inr inner' \<Rightarrow> objects_same_outside k inner inner')))"

subsection \<open>Concrete inputs\<close>

definition conversion_with_offer :: json where
  "conversion_with_offer =
     JObj [(''Conversion'', JObj [(''id'', JStr ''5''), (''payout'', JStr ''10'')]),
           (''Offer'', JObj [(''id'', JStr ''2'')])]"

definition conversion_collection :: json where
  "conversion_collection = JObj [(''1'', conversion_with_offer)]"

definition conversion_only :: json where
  "conversion_only = JObj [(''Conversion'', JObj [(''id'', JStr ''7'')])]"

text \<open>A scope in which the sibling \<^verbatim>\<open>Offer\<close> has the name of a field of the primary scope.\<close>

definition colliding_scope :: json where
  "colliding_scope =
     JObj [(''Conversion'', JObj [(''id'', JStr ''5''), (''Offer'', JStr ''primary'')]),
           (''Offer'', JObj [(''id'', JStr ''2'')])]"

definition envelope :: "json \<Rightarrow> json \<Rightarrow> json \<Rightarrow> json" where
  "envelope st d msg =
     JObj [(''response'',
            JObj [(''status'', st), (''httpStatus'', JInt 200), (''data'', d),
                  (''errors'', JList []), (''errorMessage'', msg)])]"

definition rate_limit_body :: json where
  "rate_limit_body = envelope (JInt (- 1)) JNull (JStr ''API usage exceeded rate limit'')"

definition failure_body :: json where
  "failure_body = envelope (JInt (- 1)) JNull (JStr ''Invalid token'')"

definition success_body_with_message :: json where
  "success_body_with_message = envelope (JInt 1) conversion_with_offer (JStr ''deprecated'')"

definition status_only_body :: json where
  "status_only_body = JObj [(''response'', JObj [(''status'', JInt 0)])]"

definition client :: "int \<Rightarrow> api" where
  "client retries = Api_init (JStr ''token'') (JStr ''network'') False retries"

definition build_none :: "(string \<times> json) list \<Rightarrow> string" where
  "build_none ps = []"

definition conversion_request :: request where
  "conversion_request = Request_init build_none ''Conversion'' ''findAll'' []"

definition conversion_response :: response where
  "conversion_response =
     \<lparr>request = conversion_request,
      json_response = envelope (JInt 1) conversion_with_offer (JStr []),
      data = conversion_with_offer, status = JInt 1, httpStatus = JInt 200,
      errors = JList [], errorMessage = JStr []\<rparr>"

definition collection_response :: response where
  "collection_response =
     \<lparr>request = conversion_request,
      json_response = envelope (JInt 1) conversion_collection (JStr []),
      data = conversion_collection, status = JInt 1, httpStatus = JInt 200,
      errors = JList [], errorMessage = JStr []\<rparr>"

section \<open>Dictionaries: lookup, keys and order after an update\<close>

lemma map_of_dict_set: "map_of (dict_set d k v) k' = (if k' = k then Some v else map_of d k')"
  by (induction d k v rule: dict_set.induct) auto

lemma keys_dict_set:
  "map fst (dict_set d k v) = (if k \<in> set (map fst d) then map fst d else map fst d @ [k])"
  by (induction d k v rule: dict_set.induct) auto

lemma distinct_dict_set: "distinct (map fst d) \<Longrightarrow> distinct (map fst (dict_set d k v))"
  by (simp add: keys_dict_set)

lemma dict_set_fresh: "k \<notin> set (map fst d) \<Longrightarrow> dict_set d k v = d @ [(k, v)]"
  by (induction d k v rule: dict_set.induct) auto

lemma dict_set_same_outside:
  "k \<in> set (map fst d) \<Longrightarrow> list_all2 (same_entry_outside k) d (dict_set d k v)"
proof (induction d k v rule: dict_set.induct)
  case (1 k v)
  then show ?case by simp
next
  case (2 k' v' r k v)
  show ?case
  proof (cases "k' = k")
    case True
    then show ?thesis
      by (simp add: same_entry_outside_def list.rel_refl)
  next
    case False
    with 2 show ?thesis by (simp add: same_entry_outside_def)
  qed
qed

lemma distinct_dict_update: "distinct (map fst d) \<Longrightarrow> distinct (map fst (dict_update d e))"
  by (induction d e rule: dict_update.induct) (simp_all add: distinct_dict_set)

lemma map_of_dict_update:
  "distinct (map fst e) \<Longrightarrow>
   map_of (dict_update d e) k = (case map_of e k of Some v \<Rightarrow> Some v | None \<Rightarrow> map_of d k)"
proof (induction d e rule: dict_update.induct)
  case (1 d)
  then show ?case by simp
next
  case (2 d k' v' r)
  then have notin: "k' \<notin> fst ` set r" and dr: "distinct (map fst r)" by auto
  from notin have none: "map_of r k' = None" by (simp add: map_of_eq_None_iff)
  show ?case
    using "2.IH"[OF dr] none by (auto simp: map_of_dict_set split: option.splits)
qed

lemma distinct_relative_scopes:
  "distinct (map fst items) \<Longrightarrow> distinct (map fst (relative_scopes items model_name))"
  by (simp add: relative_scopes_def distinct_map_filter)

lemma map_of_relative_scopes:
  "map_of (relative_scopes items model_name) k = (if k = model_name then None else map_of items k)"
  unfolding relative_scopes_def by (induction items) auto

lemma wf_json_lookup:
  "wf_json (JObj kvs) \<Longrightarrow> map_of kvs k = Some v \<Longrightarrow> wf_json v"
  by (auto simp: list_all_iff dest!: map_of_SomeD)

lemma list_all2_id_coerced_lookup:
  "list_all2 id_coerced kvs m \<Longrightarrow> k \<noteq> ''id'' \<Longrightarrow> map_of m k = map_of kvs k"
  by (induction kvs m rule: list_all2_induct) (auto simp: id_coerced_def)

section \<open>Records built by \<^verbatim>\<open>Model\<close>\<close>

lemma Model_items_append:
  "distinct (map fst kvs) \<Longrightarrow> set (map fst kvs) \<inter> set (map fst self) = {} \<Longrightarrow>
   Model_items kvs self = Inr m \<Longrightarrow>
   \<exists>m'. m = self @ m' \<and> list_all2 id_coerced kvs m'"
proof (induction kvs self arbitrary: m rule: Model_items.induct)
  case (1 self)
  then show ?case by simp
next
  case (2 k v r self)
  have fresh: "k \<notin> set (map fst self)" using "2.prems"(2) by auto
  have dr: "distinct (map fst r)" and kr: "k \<notin> set (map fst r)" using "2.prems"(1) by auto
  show ?case
  proof (cases "k = ''id''")
    case True
    then obtain n where n: "py_int v = Inr n"
      and run: "Model_items r (dict_set self k (JInt n)) = Inr m"
      using "2.prems"(3) by (auto split: sum.splits)
    have disj: "set (map fst r) \<inter> set (map fst (dict_set self k (JInt n))) = {}"
      using "2.prems"(2) kr fresh by (auto simp: keys_dict_set)
    from "2.IH"(1)[OF True n dr disj run] obtain m' where
      m': "m = dict_set self k (JInt n) @ m'" "list_all2 id_coerced r m'" by blast
    have "m = self @ ((k, JInt n) # m')" using m'(1) fresh by (simp add: dict_set_fresh)
    moreover have "list_all2 id_coerced ((k, v) # r) ((k, JInt n) # m')"
      using m'(2) True n by (simp add: id_coerced_def)
    ultimately show ?thesis by blast
  next
    case False
    then have run: "Model_items r (dict_set self k v) = Inr m"
      using "2.prems"(3) by simp
    have disj: "set (map fst r) \<inter> set (map fst (dict_set self k v)) = {}"
      using "2.prems"(2) kr fresh by (auto simp: keys_dict_set)
    from "2.IH"(2)[OF False dr disj run] obtain m' where
      m': "m = dict_set self k v @ m'" "list_all2 id_coerced r m'" by blast
    have "m = self @ ((k, v) # m')" using m'(1) fresh by (simp add: dict_set_fresh)
    moreover have "list_all2 id_coerced ((k, v) # r) ((k, v) # m')"
      using m'(2) False by (simp add: id_coerced_def)
    ultimately show ?thesis by blast
  qed
qed

lemma Model_init_coerced:
  "distinct (map fst kvs) \<Longrightarrow> Model_init (JObj kvs) = Inr m \<Longrightarrow> list_all2 id_coerced kvs m"
  using Model_items_append[of kvs "[]" m] by simp

section \<open>The mapper: what a successful extraction computed\<close>

lemma extract_scope_success:
  assumes "extract_scope scope model_name = (scope', Inr m)"
  shows "\<exists>items primary.
           scope = JObj items \<and> map_of items model_name = Some (JObj primary) \<and>
           scope' = JObj (dict_set items model_name
                      (JObj (dict_update primary (relative_scopes items model_name)))) \<and>
           Model_init (JObj (dict_update primary (relative_scopes items model_name))) = Inr m"
proof (cases scope)
  case (JObj items)
  with assms show ?thesis
    by (auto simp: extract_scope_def Let_def split: option.splits json.splits)
qed (use assms in \<open>simp_all add: extract_scope_def\<close>)

lemma extract_scope_record_of:
  assumes wf: "wf_json scope" and run: "extract_scope scope model_name = (scope', Inr m)"
  shows "record_of model_name scope m"
proof -
  from extract_scope_success[OF run] obtain items primary where
    sc: "scope = JObj items" and prim: "map_of items model_name = Some (JObj primary)"
    and built: "Model_init (JObj (dict_update primary (relative_scopes items model_name))) = Inr m"
    by blast
  have "wf_json (JObj primary)" using wf sc prim wf_json_lookup by blast
  then have "distinct (map fst (dict_update primary (relative_scopes items model_name)))"
    by (simp add: distinct_dict_update)
  from Model_init_coerced[OF this built] show ?thesis
    using sc prim by (simp add: record_of_def)
qed

lemma extract_one_success:
  assumes "extract_one d model_name = (d', Inr (Some m))"
  shows "extract_scope d model_name = (d', Inr m)"
  using assms
  by (auto simp: extract_one_def split: sum.splits if_splits prod.splits)

lemma extract_all_loop_success:
  "extract_all_loop items model_name collection = (items', Inr recs) \<Longrightarrow>
   \<exists>new. recs = collection @ new \<and> length items' = length items \<and> length new = length items \<and>
     (\<forall>i<length items. fst (items' ! i) = fst (items ! i) \<and>
        extract_scope (snd (items ! i)) model_name = (snd (items' ! i), Inr (new ! i)))"
proof (induction items model_name collection arbitrary: items' recs rule: extract_all_loop.induct)
  case (1 model_name collection)
  then show ?case by simp
next
  case (2 object_id object_scope rest model_name collection)
  from "2.prems" obtain scope' m rest' where
    sc: "extract_scope object_scope model_name = (scope', Inr m)"
    and lp: "extract_all_loop rest model_name (collection @ [m]) = (rest', Inr recs)"
    and it: "items' = (object_id, scope') # rest'"
    by (auto split: prod.splits sum.splits)
  from "2.IH"[OF sc[symmetric] refl lp] obtain new where
    new: "recs = (collection @ [m]) @ new" "length rest' = length rest" "length new = length rest"
      "\<forall>i<length rest. fst (rest' ! i) = fst (rest ! i) \<and>
         extract_scope (snd (rest ! i)) model_name = (snd (rest' ! i), Inr (new ! i))"
    by blast
  have "\<forall>i<length ((object_id, object_scope) # rest).
          fst (items' ! i) = fst (((object_id, object_scope) # rest) ! i) \<and>
          extract_scope (snd (((object_id, object_scope) # rest) ! i)) model_name
            = (snd (items' ! i), Inr ((m # new) ! i))"
  proof (intro allI impI)
    fix i assume "i < length ((object_id, object_scope) # rest)"
    then show "fst (items' ! i) = fst (((object_id, object_scope) # rest) ! i) \<and>
          extract_scope (snd (((object_id, object_scope) # rest) ! i)) model_name
            = (snd (items' ! i), Inr ((m # new) ! i))"
      using new(4) sc it by (cases i) auto
  qed
  then show ?case
    using new(1,2,3) it by (intro exI[of _ "m # new"]) simp
qed

lemma extract_all_success:
  assumes "extract_all (JObj objs) model_name = (d', Inr (Some recs))"
  shows "\<exists>objs'. d' = JObj objs' \<and> length objs' = length objs \<and> length recs = length objs \<and>
     (\<forall>i<length objs. fst (objs' ! i) = fst (objs ! i) \<and>
        extract_scope (snd (objs ! i)) model_name = (snd (objs' ! i), Inr (recs ! i)))"
proof -
  from assms obtain objs' where
    lp: "extract_all_loop objs model_name [] = (objs', Inr recs)" and dd: "d' = JObj objs'"
    by (auto simp: extract_all_def split: if_splits prod.splits sum.splits)
  from extract_all_loop_success[OF lp] dd show ?thesis by auto
qed

section \<open>Properties of the mapper\<close>

text \<open>
  C6. For the empty mapping both \<^verbatim>\<open>extract_one\<close> and \<^verbatim>\<open>extract_all\<close> return \<^verbatim>\<open>None\<close>:
  no exception is raised, the input is left as it is, and the result of
  \<^verbatim>\<open>extract_all\<close> is \<^verbatim>\<open>None\<close>, which differs from the empty list a caller would get
  for a collection without elements.
\<close>

theorem empty_input_gives_None:
  "extract_one (JObj []) model_name = (JObj [], Inr None) \<and>
   extract_all (JObj []) model_name = (JObj [], Inr None) \<and>
   snd (extract_all (JObj []) model_name) \<noteq> Inr (Some [])"
  by (simp add: extract_one_def extract_all_def)

text \<open>
  C3, as the code has it. For a non-empty mapping without the key \<open>model_name\<close>,
  \<^verbatim>\<open>extract_one\<close> fails with Python's built-in \<^verbatim>\<open>KeyError\<close> for the model name, which
  escapes from the lookup \<^verbatim>\<open>data[model_name]\<close>; no record is built, not even a partial
  one, and the input is left as it is.
\<close>

theorem extract_one_without_primary_scope:
  assumes "items \<noteq> []" and "model_name \<notin> fst ` set items"
  shows "extract_one (JObj items) model_name = (JObj items, Inl (KeyError model_name))"
proof -
  from assms(2) have "map_of items model_name = None"
    by (simp add: map_of_eq_None_iff)
  with assms(1) show ?thesis
    by (simp add: extract_one_def extract_scope_def)
qed

theorem extract_one_without_primary_scope_witness:
  "[(''Conversion'', JObj [(''id'', JStr ''7'')])] \<noteq> [] \<and>
   ''Offer'' \<notin> fst ` set [(''Conversion'', JObj [(''id'', JStr ''7'')])] \<and>
   extract_one conversion_only ''Offer'' = (conversion_only, Inl (KeyError ''Offer''))"
  using extract_one_without_primary_scope
    [of "[(''Conversion'', JObj [(''id'', JStr ''7'')])]" "''Offer''"]
  by (simp add: conversion_only_def)

text \<open>
  C3 as stated fails. What \<^verbatim>\<open>extract_one\<close> raises for
  \<^verbatim>\<open>{"Conversion": {"id": "7"}}\<close> and \<^verbatim>\<open>"Offer"\<close> is no \<^verbatim>\<open>MappingError\<close>: the module
  defines the classes \<^verbatim>\<open>Error\<close> and \<^verbatim>\<open>APIUsageExceededRateLimit\<close> only, the
  \<^verbatim>\<open>KeyError\<close> raised is outside that hierarchy, and it is no failure of the mapper's
  own: \<^verbatim>\<open>Response.__init__\<close> raises the same class for an envelope without \<^verbatim>\<open>data\<close>.
\<close>

theorem missing_primary_scope_counterexample:
  "extract_one conversion_only ''Offer'' = (conversion_only, Inl (KeyError ''Offer'')) \<and>
   class_of (KeyError ''Offer'') = KeyError_class \<and>
   \<not> isinstance_Error (KeyError ''Offer'') \<and>
   Response_init conversion_request (JObj [(''response'', JObj [(''status'', JInt 1)])])
     = Inl (KeyError ''data'') \<and>
   class_of (KeyError ''data'') = class_of (KeyError ''Offer'')"
  by (simp add: conversion_only_def extract_one_def extract_scope_def Response_init_def
      envelope_field_def)

text \<open>
  C4. Every record the mapper builds is the merged scope (the primary scope updated
  with the sibling scopes) entry by entry: the same keys in the same order, the value
  under \<^verbatim>\<open>id\<close> replaced by the integer \<^verbatim>\<open>int\<close> gives for it, every other value
  unchanged. This holds for the record of \<^verbatim>\<open>extract_one\<close> and for each record of
  \<^verbatim>\<open>extract_all\<close>. On the collection with the one object
  \<^verbatim>\<open>{"Conversion": {"id": "5", "payout": "10"}, "Offer": {"id": "2"}}\<close>,
  \<^verbatim>\<open>extract_all\<close> returns exactly one record, with \<^verbatim>\<open>id\<close> the integer 5, \<^verbatim>\<open>payout\<close>
  the string \<^verbatim>\<open>"10"\<close> and \<^verbatim>\<open>Offer\<close> the mapping \<^verbatim>\<open>{"id": "2"}\<close>, whose own \<^verbatim>\<open>id\<close> stays
  a string.
\<close>

theorem record_coerces_id_only:
  "(wf_json d \<and> extract_one d model_name = (d', Inr (Some m))
      \<longrightarrow> record_of model_name d m) \<and>
   (wf_json (JObj objs) \<and> extract_all (JObj objs) model_name = (d'', Inr (Some recs))
      \<longrightarrow> list_all2 (record_of model_name) (map snd objs) recs) \<and>
   snd (extract_all conversion_collection ''Conversion'') =
     Inr (Some [[(''id'', JInt 5), (''payout'', JStr ''10''), (''Offer'', JObj [(''id'', JStr ''2'')])]])"
proof (intro conjI impI)
  assume a: "wf_json d \<and> extract_one d model_name = (d', Inr (Some m))"
  then show "record_of model_name d m"
    using extract_scope_record_of extract_one_success by blast
next
  assume a: "wf_json (JObj objs) \<and> extract_all (JObj objs) model_name = (d'', Inr (Some recs))"
  from extract_all_success[of objs model_name d'' recs] a obtain objs' where
    dd: "d'' = JObj objs'" and len: "length recs = length objs"
    and each: "\<forall>i<length objs.
        extract_scope (snd (objs ! i)) model_name = (snd (objs' ! i), Inr (recs ! i))"
    by blast
  have "\<And>i. i < length objs \<Longrightarrow> record_of model_name (snd (objs ! i)) (recs ! i)"
  proof -
    fix i assume i: "i < length objs"
    then have "wf_json (snd (objs ! i))" using a by (simp add: list_all_length)
    with each i show "record_of model_name (snd (objs ! i)) (recs ! i)"
      using extract_scope_record_of by blast
  qed
  then show "list_all2 (record_of model_name) (map snd objs) recs"
    using len by (simp add: list_all2_conv_all_nth)
next
  show "snd (extract_all conversion_collection ''Conversion'') =
     Inr (Some [[(''id'', JInt 5), (''payout'', JStr ''10''), (''Offer'', JObj [(''id'', JStr ''2'')])]])"
    by (simp add: conversion_collection_def conversion_with_offer_def extract_all_def
        extract_scope_def relative_scopes_def int_of_str_def strip_def is_space_def parse_nat_def
        max_str_digits_def is_digit_def digit_val_def)
qed

theorem record_coerces_id_only_witness:
  "wf_json conversion_with_offer \<and>
   extract_one conversion_with_offer ''Conversion'' =
     (JObj [(''Conversion'', JObj [(''id'', JStr ''5''), (''payout'', JStr ''10''),
                                   (''Offer'', JObj [(''id'', JStr ''2'')])]),
            (''Offer'', JObj [(''id'', JStr ''2'')])],
      Inr (Some [(''id'', JInt 5), (''payout'', JStr ''10''), (''Offer'', JObj [(''id'', JStr ''2'')])])) \<and>
   record_of ''Conversion'' conversion_with_offer
     [(''id'', JInt 5), (''payout'', JStr ''10''), (''Offer'', JObj [(''id'', JStr ''2'')])]"
proof -
  have wf: "wf_json conversion_with_offer"
    by (simp add: conversion_with_offer_def)
  have run: "extract_one conversion_with_offer ''Conversion'' =
     (JObj [(''Conversion'', JObj [(''id'', JStr ''5''), (''payout'', JStr ''10''),
                                   (''Offer'', JObj [(''id'', JStr ''2'')])]),
            (''Offer'', JObj [(''id'', JStr ''2'')])],
      Inr (Some [(''id'', JInt 5), (''payout'', JStr ''10''), (''Offer'', JObj [(''id'', JStr ''2'')])]))"
    by (simp add: conversion_with_offer_def extract_one_def
        extract_scope_def relative_scopes_def int_of_str_def strip_def is_space_def parse_nat_def
        max_str_digits_def is_digit_def digit_val_def)
  from record_coerces_id_only
    [of conversion_with_offer "''Conversion''" _
        "[(''id'', JInt 5), (''payout'', JStr ''10''), (''Offer'', JObj [(''id'', JStr ''2'')])]"]
    wf run
  show ?thesis by simp
qed

text \<open>
  C10. When a sibling scope has the name \<open>k\<close> of a field of the primary scope, the merge
  keeps the sibling: \<^verbatim>\<open>model_scope.update(relative_scopes)\<close> starts from the primary
  scope and stores every sibling entry over it. The merged scope maps \<open>k\<close> to the
  sibling scope, and so does the record (for \<open>k\<close> other than \<^verbatim>\<open>id\<close>, which is passed
  through \<^verbatim>\<open>int\<close>), for \<^verbatim>\<open>extract_one\<close> and for each object of \<^verbatim>\<open>extract_all\<close>.
\<close>

theorem sibling_scope_overwrites_primary_field:
  assumes wf: "wf_json (JObj items)"
    and prim: "map_of items model_name = Some (JObj primary)"
    and sib: "k \<noteq> model_name" "map_of items k = Some sibling"
    and coll: "map_of primary k = Some original"
  shows "map_of (dict_update primary (relative_scopes items model_name)) k = Some sibling \<and>
     (extract_one (JObj items) model_name = (d', Inr (Some m)) \<and> k \<noteq> ''id'' \<longrightarrow>
        py_getitem d' model_name
          = Inr (JObj (dict_update primary (relative_scopes items model_name))) \<and>
        map_of m k = Some sibling) \<and>
     (i < length objs \<and> snd (objs ! i) = JObj items \<and> k \<noteq> ''id'' \<and>
      extract_all (JObj objs) model_name = (d'', Inr (Some recs)) \<longrightarrow>
        map_of (recs ! i) k = Some sibling)"
proof -
  let ?merged = "dict_update primary (relative_scopes items model_name)"
  have di: "distinct (map fst items)" using wf by simp
  have merged: "map_of ?merged k = Some sibling"
    using sib by (simp add: map_of_dict_update distinct_relative_scopes[OF di] map_of_relative_scopes)
  have rec: "map_of r k = Some sibling"
    if run: "extract_scope (JObj items) model_name = (sc', Inr r)" and k: "k \<noteq> ''id''" for sc' r
  proof -
    have "record_of model_name (JObj items) r"
      using extract_scope_record_of[OF wf run] .
    then have "list_all2 id_coerced ?merged r"
      using prim by (simp add: record_of_def)
    from list_all2_id_coerced_lookup[OF this k] merged show ?thesis by simp
  qed
  have one: "py_getitem d' model_name = Inr (JObj ?merged) \<and> map_of m k = Some sibling"
    if run: "extract_one (JObj items) model_name = (d', Inr (Some m))" and k: "k \<noteq> ''id''"
  proof -
    from extract_one_success[OF run] have sc: "extract_scope (JObj items) model_name = (d', Inr m)" .
    from extract_scope_success[OF sc] prim
    have "d' = JObj (dict_set items model_name (JObj ?merged))" by auto
    then have "py_getitem d' model_name = Inr (JObj ?merged)"
      by (simp add: map_of_dict_set)
    with rec[OF sc k] show ?thesis by simp
  qed
  have all: "map_of (recs ! i) k = Some sibling"
    if i: "i < length objs" and at: "snd (objs ! i) = JObj items" and k: "k \<noteq> ''id''"
      and run: "extract_all (JObj objs) model_name = (d'', Inr (Some recs))"
  proof -
    from extract_all_success[OF run] i at obtain sc' where
      "extract_scope (JObj items) model_name = (sc', Inr (recs ! i))" by metis
    from rec[OF this k] show ?thesis .
  qed
  from merged one all show ?thesis by blast
qed

theorem sibling_scope_overwrites_primary_field_witness:
  "wf_json colliding_scope \<and>
   extract_one colliding_scope ''Conversion'' =
     (JObj [(''Conversion'', JObj [(''id'', JStr ''5''), (''Offer'', JObj [(''id'', JStr ''2'')])]),
            (''Offer'', JObj [(''id'', JStr ''2'')])],
      Inr (Some [(''id'', JInt 5), (''Offer'', JObj [(''id'', JStr ''2'')])])) \<and>
   map_of [(''id'', JInt 5), (''Offer'', JObj [(''id'', JStr ''2'')])] ''Offer''
     = Some (JObj [(''id'', JStr ''2'')]) \<and>
   snd (extract_all (JObj [(''1'', colliding_scope)]) ''Conversion'') =
     Inr (Some [[(''id'', JInt 5), (''Offer'', JObj [(''id'', JStr ''2'')])]])"
proof -
  have wf: "wf_json (JObj [(''Conversion'', JObj [(''id'', JStr ''5''), (''Offer'', JStr ''primary'')]),
           (''Offer'', JObj [(''id'', JStr ''2'')])])"
    by simp
  have run: "extract_one colliding_scope ''Conversion'' =
     (JObj [(''Conversion'', JObj [(''id'', JStr ''5''), (''Offer'', JObj [(''id'', JStr ''2'')])]),
            (''Offer'', JObj [(''id'', JStr ''2'')])],
      Inr (Some [(''id'', JInt 5), (''Offer'', JObj [(''id'', JStr ''2'')])]))"
    by (simp add: colliding_scope_def extract_one_def
        extract_scope_def relative_scopes_def int_of_str_def strip_def is_space_def parse_nat_def
        max_str_digits_def is_digit_def digit_val_def)
  have runs: "snd (extract_all (JObj [(''1'', colliding_scope)]) ''Conversion'') =
     Inr (Some [[(''id'', JInt 5), (''Offer'', JObj [(''id'', JStr ''2'')])]])"
    by (simp add: colliding_scope_def extract_all_def
        extract_scope_def relative_scopes_def int_of_str_def strip_def is_space_def parse_nat_def
        max_str_digits_def is_digit_def digit_val_def)
  from sibling_scope_overwrites_primary_field
    [OF wf, of "''Conversion''" "[(''id'', JStr ''5''), (''Offer'', JStr ''primary'')]"
       "''Offer''" "JObj [(''id'', JStr ''2'')]" "JStr ''primary''" _
       "[(''id'', JInt 5), (''Offer'', JObj [(''id'', JStr ''2'')])]"]
    run runs wf
  show ?thesis by (simp add: colliding_scope_def)
qed

section \<open>The mapper: what an extraction leaves unchanged\<close>

lemma same_entry_outside_refl: "same_entry_outside k kv kv"
  by (simp add: same_entry_outside_def)

lemma same_outside_refl: "same_outside k d d"
  by (cases d) (simp_all add: same_outside_def list.rel_refl same_entry_outside_refl)

lemma same_object_outside_refl: "same_object_outside k kv kv"
  by (simp add: same_object_outside_def same_outside_refl)

lemma objects_same_outside_refl: "objects_same_outside k d d"
  by (cases d) (simp_all add: objects_same_outside_def list.rel_refl same_object_outside_refl)

lemma same_objects_refl: "list_all2 (same_object_outside k) xs xs"
  by (rule list.rel_refl) (rule same_object_outside_refl)

lemma extract_scope_frame:
  assumes "extract_scope d model_name = (d', res)"
  shows "same_outside model_name d d'"
proof (cases d)
  case (JObj items)
  show ?thesis
  proof (cases "\<exists>primary. map_of items model_name = Some (JObj primary)")
    case True
    then obtain primary where prim: "map_of items model_name = Some (JObj primary)" by blast
    with assms JObj have d': "d' = JObj (dict_set items model_name
                      (JObj (dict_update primary (relative_scopes items model_name))))"
      by (simp add: extract_scope_def)
    from prim have "model_name \<in> set (map fst items)"
      by (metis map_of_eq_None_iff option.distinct(1) set_map)
    from dict_set_same_outside[OF this] show ?thesis
      using JObj d' by (simp add: same_outside_def)
  next
    case False
    with assms JObj have "d' = d"
      by (auto simp: extract_scope_def split: option.splits json.splits)
    then show ?thesis by (simp add: same_outside_refl)
  qed
qed (use assms in \<open>auto simp: extract_scope_def same_outside_refl\<close>)

lemma extract_one_frame:
  assumes "extract_one d model_name = (d', res)"
  shows "same_outside model_name d d'"
proof (cases "extract_scope d model_name")
  case (Pair d1 r1)
  from extract_scope_frame[OF Pair] have fr: "same_outside model_name d d1" .
  from assms Pair have "d' = d \<or> d' = d1"
    by (auto simp: extract_one_def split: sum.splits if_splits)
  with fr show ?thesis by (auto simp: same_outside_refl)
qed

lemma extract_all_loop_frame:
  "extract_all_loop items model_name collection = (items', res) \<Longrightarrow>
   list_all2 (same_object_outside model_name) items items'"
proof (induction items model_name collection arbitrary: items' res rule: extract_all_loop.induct)
  case (1 model_name collection)
  then show ?case by simp
next
  case (2 object_id object_scope rest model_name collection)
  obtain scope' r where sc: "extract_scope object_scope model_name = (scope', r)"
    by (cases "extract_scope object_scope model_name")
  from extract_scope_frame[OF sc]
  have fr: "same_object_outside model_name (object_id, object_scope) (object_id, scope')"
    by (simp add: same_object_outside_def)
  show ?case
  proof (cases r)
    case (Inl e)
    with "2.prems" sc have "items' = (object_id, scope') # rest" by simp
    with fr show ?thesis
      by (simp add: same_objects_refl)
  next
    case (Inr m)
    obtain rest' res' where lp: "extract_all_loop rest model_name (collection @ [m]) = (rest', res')"
      by (cases "extract_all_loop rest model_name (collection @ [m])")
    from "2.IH"[OF sc[symmetric] _ lp] Inr
    have "list_all2 (same_object_outside model_name) rest rest'" by simp
    moreover from "2.prems" sc Inr lp have "items' = (object_id, scope') # rest'" by simp
    ultimately show ?thesis using fr by simp
  qed
qed

lemma extract_all_frame:
  assumes "extract_all d model_name = (d', res)"
  shows "objects_same_outside model_name d d'"
proof (cases d)
  case (JObj items)
  obtain items' r where lp: "extract_all_loop items model_name [] = (items', r)"
    by (cases "extract_all_loop items model_name []")
  from extract_all_loop_frame[OF lp]
  have fr: "list_all2 (same_object_outside model_name) items items'" .
  from assms JObj lp have "d' = d \<or> d' = JObj items'"
    by (auto simp: extract_all_def split: if_splits sum.splits)
  with fr JObj show ?thesis
    by (auto simp: objects_same_outside_def same_objects_refl)
next
  case (JList xs)
  with assms have "d' = d" by (auto simp: extract_all_def split: if_splits)
  then show ?thesis by (simp add: objects_same_outside_refl)
next
  case (JStr s)
  with assms have "d' = d" by (auto simp: extract_all_def split: if_splits)
  then show ?thesis by (simp add: objects_same_outside_refl)
qed (use assms in \<open>auto simp: extract_all_def objects_same_outside_refl\<close>)

section \<open>One attempt of \<^verbatim>\<open>send_request\<close>\<close>

lemma gets_Get_Sleep: "gets (trace @ [Get u, Sleep_ms n]) = gets trace + 1"
  by (simp add: gets_def)

lemma rate_limit_envelope_classified:
  assumes "rate_limit_envelope body"
  shows "\<exists>m. envelope_field body ''errorMessage'' = Inr (JStr m) \<and>
             not_success body = Inr True \<and>
             cast_error body = Inr (APIUsageExceededRateLimit (JStr m))"
proof -
  from assms obtain kvs where b: "body = JObj kvs"
    by (cases body) (simp_all add: rate_limit_envelope_def)
  from assms b obtain rv where rv: "map_of kvs ''response'' = Some rv"
    by (cases "map_of kvs ''response''") (simp_all add: rate_limit_envelope_def)
  from assms b rv obtain r where "rv = JObj r"
    by (cases rv) (simp_all add: rate_limit_envelope_def)
  with rv have r: "map_of kvs ''response'' = Some (JObj r)" by simp
  from assms b r obtain s where s1: "map_of r ''status'' = Some s"
    by (cases "map_of r ''status''") (simp_all add: rate_limit_envelope_def)
  from assms b r s1 have s2: "\<not> py_eq_one s"
    by (simp add: rate_limit_envelope_def)
  note s = s1 s2
  from assms b r s1 obtain mv where mv: "map_of r ''errorMessage'' = Some mv"
    by (cases "map_of r ''errorMessage''") (simp_all add: rate_limit_envelope_def)
  from assms b r s1 mv obtain m where "mv = JStr m"
    by (cases mv) (simp_all add: rate_limit_envelope_def)
  with assms b r s1 mv have m: "map_of r ''errorMessage'' = Some (JStr m)"
      "str_contains ''API usage exceeded rate limit'' m"
    by (simp_all add: rate_limit_envelope_def)
  have kr: "''response'' \<in> fst ` set kvs" using r by (metis map_of_eq_None_iff option.distinct(1))
  have ks: "''status'' \<in> fst ` set r" using s(1) by (metis map_of_eq_None_iff option.distinct(1))
  have "envelope_field body ''errorMessage'' = Inr (JStr m)"
    using b r m(1) by (simp add: envelope_field_def)
  moreover have "not_success body = Inr True"
    using b r s kr ks by (simp add: not_success_def envelope_field_def)
  moreover have "cast_error body = Inr (APIUsageExceededRateLimit (JStr m))"
    using b r m kr ks by (simp add: cast_error_def envelope_field_def)
  ultimately show ?thesis by blast
qed

lemma send_request_retry:
  assumes "server (url req) (gets trace) = Inr body"
    and "not_success body = Inr True"
    and "cast_error body = Inr (APIUsageExceededRateLimit m)"
    and "retry_count self > 1" and "attempts req + 1 < retry_count self"
  shows "send_request self server req trace =
           send_request self server (req\<lparr>attempts := attempts req + 1\<rparr>)
             (trace @ [Get (url req), Sleep_ms 250])"
  using assms by (subst send_request.simps) (simp add: Let_def)

lemma send_request_give_up:
  assumes "server (url req) (gets trace) = Inr body"
    and "not_success body = Inr True"
    and "cast_error body = Inr (APIUsageExceededRateLimit m)"
    and "\<not> (retry_count self > 1 \<and> attempts req + 1 < retry_count self)"
  shows "send_request self server req trace =
           (req\<lparr>attempts := attempts req + 1\<rparr>, trace @ [Get (url req)],
            Inl (APIUsageExceededRateLimit m))"
  using assms by (subst send_request.simps) (auto simp: Let_def)

lemma send_request_success:
  assumes "server (url req) (gets trace) = Inr body"
    and "not_success body = Inr False"
  shows "send_request self server req trace =
           (req\<lparr>attempts := attempts req + 1\<rparr>, trace @ [Get (url req)],
            Response_init (req\<lparr>attempts := attempts req + 1\<rparr>) body)"
  using assms by (subst send_request.simps) (simp add: Let_def)

section \<open>Properties of the retry loop\<close>

text \<open>
  C1. A client with \<^verbatim>\<open>retry_count\<close> 3 sends a request whose attempt counter is 0, as
  \<^verbatim>\<open>call\<close> creates it, and each of the three GETs is answered by a rate-limit envelope.
  Then \<^verbatim>\<open>send_request\<close> issues exactly three GETs with one sleep of 250 ms between
  two consecutive GETs (two sleeps), leaves the counter at 3, and raises
  \<^verbatim>\<open>APIUsageExceededRateLimit\<close> with the \<^verbatim>\<open>errorMessage\<close> of the third answer.
\<close>

theorem three_attempts_on_rate_limit:
  assumes "retry_count self = 3" and "attempts req = 0"
    and "server (url req) (gets trace) = Inr b1" and "rate_limit_envelope b1"
    and "server (url req) (gets trace + 1) = Inr b2" and "rate_limit_envelope b2"
    and "server (url req) (gets trace + 2) = Inr b3" and "rate_limit_envelope b3"
  shows "attempts (create_request self build tgt meth ps) = 0 \<and>
     call self build server tgt meth ps trace
       = send_request self server (create_request self build tgt meth ps) trace \<and>
     (\<exists>m. envelope_field b3 ''errorMessage'' = Inr (JStr m) \<and>
        send_request self server req trace =
          (req\<lparr>attempts := 3\<rparr>,
           trace @ [Get (url req), Sleep_ms 250, Get (url req), Sleep_ms 250, Get (url req)],
           Inl (APIUsageExceededRateLimit (JStr m))))"
proof -
  from rate_limit_envelope_classified[OF assms(4)] obtain m1 where
    c1: "not_success b1 = Inr True" "cast_error b1 = Inr (APIUsageExceededRateLimit (JStr m1))"
    by blast
  from rate_limit_envelope_classified[OF assms(6)] obtain m2 where
    c2: "not_success b2 = Inr True" "cast_error b2 = Inr (APIUsageExceededRateLimit (JStr m2))"
    by blast
  from rate_limit_envelope_classified[OF assms(8)] obtain m3 where
    c3: "envelope_field b3 ''errorMessage'' = Inr (JStr m3)"
      "not_success b3 = Inr True" "cast_error b3 = Inr (APIUsageExceededRateLimit (JStr m3))"
    by blast
  let ?t1 = "trace @ [Get (url req), Sleep_ms 250]"
  let ?r1 = "req\<lparr>attempts := attempts req + 1\<rparr>"
  let ?t2 = "?t1 @ [Get (url ?r1), Sleep_ms 250]"
  let ?r2 = "?r1\<lparr>attempts := attempts ?r1 + 1\<rparr>"
  have s1: "send_request self server req trace = send_request self server ?r1 ?t1"
    using assms(1,2)
    by (intro send_request_retry[where server = server and req = req and trace = trace,
          OF assms(3) c1]) simp_all
  have g1: "server (url ?r1) (gets ?t1) = Inr b2"
    using assms(5) by (simp add: gets_Get_Sleep)
  have s2: "send_request self server ?r1 ?t1 = send_request self server ?r2 ?t2"
    using assms(1,2)
    by (intro send_request_retry[where server = server and req = "?r1" and trace = "?t1",
          OF g1 c2]) simp_all
  have g2: "server (url ?r2) (gets ?t2) = Inr b3"
    using assms(7) by (simp add: gets_def)
  have s3: "send_request self server ?r2 ?t2 =
      (?r2\<lparr>attempts := attempts ?r2 + 1\<rparr>, ?t2 @ [Get (url ?r2)],
       Inl (APIUsageExceededRateLimit (JStr m3)))"
    using assms(1,2)
    by (intro send_request_give_up[where server = server and req = "?r2" and trace = "?t2",
          OF g2 c3(2,3)]) simp
  have "send_request self server req trace =
          (req\<lparr>attempts := 3\<rparr>,
           trace @ [Get (url req), Sleep_ms 250, Get (url req), Sleep_ms 250, Get (url req)],
           Inl (APIUsageExceededRateLimit (JStr m3)))"
    using s1 s2 s3 assms(2) by simp
  with c3(1) show ?thesis
    by (auto simp: call_def create_request_def Request_init_def)
qed

theorem three_attempts_on_rate_limit_witness:
  "retry_count (client 3) = 3 \<and> attempts conversion_request = 0 \<and>
   rate_limit_envelope rate_limit_body \<and>
   send_request (client 3) (always rate_limit_body) conversion_request [] =
     (conversion_request\<lparr>attempts := 3\<rparr>,
      [Get (url conversion_request), Sleep_ms 250, Get (url conversion_request), Sleep_ms 250,
       Get (url conversion_request)],
      Inl (APIUsageExceededRateLimit (JStr ''API usage exceeded rate limit''))) \<and>
   gets [Get (url conversion_request), Sleep_ms 250, Get (url conversion_request), Sleep_ms 250,
         Get (url conversion_request)] = 3 \<and>
   sleeps [Get (url conversion_request), Sleep_ms 250, Get (url conversion_request), Sleep_ms 250,
           Get (url conversion_request)] = [250, 250]"
proof -
  have rc: "retry_count (client 3) = 3" by (simp add: client_def Api_init_def)
  have at: "attempts conversion_request = 0"
    by (simp add: conversion_request_def Request_init_def)
  have rl: "rate_limit_envelope rate_limit_body"
    by (simp add: rate_limit_envelope_def rate_limit_body_def envelope_def)
  have sv: "always rate_limit_body (url conversion_request) n = Inr rate_limit_body" for n
    by (simp add: always_def)
  have msg: "envelope_field rate_limit_body ''errorMessage''
      = Inr (JStr ''API usage exceeded rate limit'')"
    by (simp add: envelope_field_def rate_limit_body_def envelope_def)
  from three_attempts_on_rate_limit
    [where self = "client 3" and server = "always rate_limit_body" and req = conversion_request
       and trace = "[]", OF rc at sv rl sv rl sv rl] msg
  have "send_request (client 3) (always rate_limit_body) conversion_request [] =
     (conversion_request\<lparr>attempts := 3\<rparr>,
      [Get (url conversion_request), Sleep_ms 250, Get (url conversion_request), Sleep_ms 250,
       Get (url conversion_request)],
      Inl (APIUsageExceededRateLimit (JStr ''API usage exceeded rate limit'')))"
    by auto
  with rc at rl show ?thesis by (simp add: gets_def sleeps_def)
qed

text \<open>
  C7. With \<^verbatim>\<open>retry_count\<close> 1, a first answer that is a rate-limit envelope ends the
  call: one GET, no sleep, no recursive call, and \<^verbatim>\<open>APIUsageExceededRateLimit\<close> with
  the answer's \<^verbatim>\<open>errorMessage\<close> is raised.
\<close>

theorem no_retry_when_retry_count_is_one:
  assumes "retry_count self = 1"
    and "server (url req) (gets trace) = Inr body" and "rate_limit_envelope body"
  shows "\<exists>m. envelope_field body ''errorMessage'' = Inr (JStr m) \<and>
     send_request self server req trace =
       (req\<lparr>attempts := attempts req + 1\<rparr>, trace @ [Get (url req)],
        Inl (APIUsageExceededRateLimit (JStr m)))"
proof -
  from rate_limit_envelope_classified[OF assms(3)] obtain m where
    c: "envelope_field body ''errorMessage'' = Inr (JStr m)"
      "not_success body = Inr True" "cast_error body = Inr (APIUsageExceededRateLimit (JStr m))"
    by blast
  have "send_request self server req trace =
       (req\<lparr>attempts := attempts req + 1\<rparr>, trace @ [Get (url req)],
        Inl (APIUsageExceededRateLimit (JStr m)))"
    using assms(1)
    by (intro send_request_give_up[where server = server and req = req and trace = trace,
          OF assms(2) c(2,3)]) simp
  with c(1) show ?thesis by blast
qed

theorem no_retry_when_retry_count_is_one_witness:
  "retry_count (client 1) = 1 \<and> rate_limit_envelope rate_limit_body \<and>
   send_request (client 1) (always rate_limit_body) conversion_request [] =
     (conversion_request\<lparr>attempts := 1\<rparr>, [Get (url conversion_request)],
      Inl (APIUsageExceededRateLimit (JStr ''API usage exceeded rate limit''))) \<and>
   sleeps [Get (url conversion_request)] = []"
proof -
  have rc: "retry_count (client 1) = 1" by (simp add: client_def Api_init_def)
  have at: "attempts conversion_request = 0"
    by (simp add: conversion_request_def Request_init_def)
  have rl: "rate_limit_envelope rate_limit_body"
    by (simp add: rate_limit_envelope_def rate_limit_body_def envelope_def)
  have sv: "always rate_limit_body (url conversion_request) (gets []) = Inr rate_limit_body"
    by (simp add: always_def)
  have msg: "envelope_field rate_limit_body ''errorMessage''
      = Inr (JStr ''API usage exceeded rate limit'')"
    by (simp add: envelope_field_def rate_limit_body_def envelope_def)
  from no_retry_when_retry_count_is_one
    [where self = "client 1" and server = "always rate_limit_body" and req = conversion_request
       and trace = "[]", OF rc sv rl] msg at
  have "send_request (client 1) (always rate_limit_body) conversion_request [] =
     (conversion_request\<lparr>attempts := 1\<rparr>, [Get (url conversion_request)],
      Inl (APIUsageExceededRateLimit (JStr ''API usage exceeded rate limit'')))"
    by auto
  with rc rl show ?thesis by (simp add: sleeps_def)
qed

text \<open>
  C8. A failed body that \<^verbatim>\<open>cast_error\<close> does not classify as
  \<^verbatim>\<open>APIUsageExceededRateLimit\<close> (the \<^verbatim>\<open>Error\<close> of a malformed body, or the \<^verbatim>\<open>Error\<close>
  with the server's message) is never retried: whatever \<^verbatim>\<open>retry_count\<close> is,
  \<^verbatim>\<open>send_request\<close> issues one GET, does not sleep, and raises the classified error.
\<close>

theorem other_failure_is_not_retried:
  assumes "server (url req) (gets trace) = Inr body"
    and "not_success body = Inr True"
    and "cast_error body = Inr e" and "class_of e \<noteq> APIUsageExceededRateLimit_class"
  shows "send_request self server req trace =
           (req\<lparr>attempts := attempts req + 1\<rparr>, trace @ [Get (url req)], Inl e)"
  using assms by (subst send_request.simps) (cases e; simp add: Let_def)

theorem other_failure_is_not_retried_witness:
  "not_success failure_body = Inr True \<and>
   cast_error failure_body = Inr (Error (Message (JStr ''Invalid token''))) \<and>
   send_request (client 5) (always failure_body) conversion_request [] =
     (conversion_request\<lparr>attempts := 1\<rparr>, [Get (url conversion_request)],
      Inl (Error (Message (JStr ''Invalid token'')))) \<and>
   not_success (JObj []) = Inr True \<and>
   cast_error (JObj []) = Inr (Error (Unexpected_error (JObj []))) \<and>
   send_request (client 5) (always (JObj [])) conversion_request [] =
     (conversion_request\<lparr>attempts := 1\<rparr>, [Get (url conversion_request)],
      Inl (Error (Unexpected_error (JObj []))))"
proof -
  have at: "attempts conversion_request = 0"
    by (simp add: conversion_request_def Request_init_def)
  have sv: "always b (url conversion_request) (gets []) = Inr b" for b
    by (simp add: always_def)
  have n1: "not_success failure_body = Inr True"
    by (simp add: not_success_def failure_body_def envelope_def envelope_field_def)
  have c1: "cast_error failure_body = Inr (Error (Message (JStr ''Invalid token'')))"
    by (simp add: cast_error_def failure_body_def envelope_def envelope_field_def)
  have n2: "not_success (JObj []) = Inr True"
    by (simp add: not_success_def)
  have c2: "cast_error (JObj []) = Inr (Error (Unexpected_error (JObj [])))"
    by (simp add: cast_error_def)
  from other_failure_is_not_retried
      [where self = "client 5" and server = "always failure_body" and req = conversion_request
         and trace = "[]", OF sv n1 c1]
    other_failure_is_not_retried
      [where self = "client 5" and server = "always (JObj [])" and req = conversion_request
         and trace = "[]", OF sv n2 c2] at n1 c1 n2 c2
  show ?thesis by simp
qed

section \<open>Properties of the envelope\<close>

text \<open>
  C2, as the code has it. When the first answer is a body whose \<^verbatim>\<open>response\<close> object
  has a \<^verbatim>\<open>status\<close> equal to 1 and the keys \<^verbatim>\<open>data\<close>, \<^verbatim>\<open>httpStatus\<close>, \<^verbatim>\<open>errors\<close> and
  \<^verbatim>\<open>errorMessage\<close>, \<^verbatim>\<open>send_request\<close> returns after one GET a \<^verbatim>\<open>Response\<close> whose five
  fields are the five values of the envelope. The field \<^verbatim>\<open>errorMessage\<close> is whatever
  the envelope carries: the empty string exactly when the envelope's is.
\<close>

theorem success_response_copies_envelope:
  assumes "server (url req) (gets trace) = Inr (JObj kvs)"
    and "map_of kvs ''response'' = Some (JObj r)"
    and "map_of r ''status'' = Some s" and "py_eq_one s"
    and "map_of r ''data'' = Some d" and "map_of r ''httpStatus'' = Some h"
    and "map_of r ''errors'' = Some es" and "map_of r ''errorMessage'' = Some msg"
  shows "send_request self server req trace =
     (req\<lparr>attempts := attempts req + 1\<rparr>, trace @ [Get (url req)],
      Inr \<lparr>request = req\<lparr>attempts := attempts req + 1\<rparr>, json_response = JObj kvs,
           data = d, status = s, httpStatus = h, errors = es, errorMessage = msg\<rparr>)"
proof -
  have kr: "''response'' \<in> fst ` set kvs"
    using assms(2) by (metis map_of_eq_None_iff option.distinct(1))
  have ks: "''status'' \<in> fst ` set r"
    using assms(3) by (metis map_of_eq_None_iff option.distinct(1))
  have ok: "not_success (JObj kvs) = Inr False"
    using assms(2,3,4) kr ks by (simp add: not_success_def envelope_field_def)
  have init: "Response_init (req\<lparr>attempts := attempts req + 1\<rparr>) (JObj kvs) =
      Inr \<lparr>request = req\<lparr>attempts := attempts req + 1\<rparr>, json_response = JObj kvs,
           data = d, status = s, httpStatus = h, errors = es, errorMessage = msg\<rparr>"
    using assms(2,3,5,6,7,8) by (simp add: Response_init_def envelope_field_def)
  from send_request_success[where server = server and req = req and trace = trace,
      OF assms(1) ok, of self] init
  show ?thesis by simp
qed

theorem success_response_copies_envelope_witness:
  "py_eq_one (JInt 1) \<and>
   send_request (client 1) (always (envelope (JInt 1) conversion_with_offer (JStr [])))
       conversion_request [] =
     (conversion_request\<lparr>attempts := 1\<rparr>, [Get (url conversion_request)],
      Inr (conversion_response\<lparr>request := conversion_request\<lparr>attempts := 1\<rparr>\<rparr>)) \<and>
   errorMessage (conversion_response\<lparr>request := conversion_request\<lparr>attempts := 1\<rparr>\<rparr>) = JStr []"
proof -
  have at: "attempts conversion_request = 0"
    by (simp add: conversion_request_def Request_init_def)
  have sv: "always (envelope (JInt 1) conversion_with_offer (JStr [])) (url conversion_request) (gets [])
      = Inr (JObj [(''response'',
            JObj [(''status'', JInt 1), (''httpStatus'', JInt 200), (''data'', conversion_with_offer),
                  (''errors'', JList []), (''errorMessage'', JStr [])])])"
    by (simp add: always_def envelope_def)
  from success_response_copies_envelope
    [where self = "client 1"
       and server = "always (envelope (JInt 1) conversion_with_offer (JStr []))"
       and req = conversion_request and trace = "[]"
       and r = "[(''status'', JInt 1), (''httpStatus'', JInt 200), (''data'', conversion_with_offer),
                  (''errors'', JList []), (''errorMessage'', JStr [])]"
       and s = "JInt 1" and d = conversion_with_offer and h = "JInt 200" and es = "JList []"
       and msg = "JStr []", OF sv] at
  show ?thesis by (simp add: conversion_response_def envelope_def)
qed

text \<open>
  C2 as stated fails. A body with \<^verbatim>\<open>status\<close> 1 and the \<^verbatim>\<open>errorMessage\<close>
  \<^verbatim>\<open>"deprecated"\<close> gives a \<^verbatim>\<open>Response\<close> whose \<^verbatim>\<open>errorMessage\<close> is that string, not the
  empty one; and a body with \<^verbatim>\<open>status\<close> 1 and nothing else gives no \<^verbatim>\<open>Response\<close>:
  \<^verbatim>\<open>Response.__init__\<close> raises \<^verbatim>\<open>KeyError\<close> at \<^verbatim>\<open>data\<close>.
\<close>

theorem success_with_errorMessage_counterexample:
  "py_eq_one (JInt 1) \<and>
   snd (snd (send_request (client 1) (always success_body_with_message) conversion_request [])) =
     Inr \<lparr>request = conversion_request\<lparr>attempts := 1\<rparr>,
          json_response = success_body_with_message,
          data = conversion_with_offer, status = JInt 1, httpStatus = JInt 200,
          errors = JList [], errorMessage = JStr ''deprecated''\<rparr> \<and>
   JStr ''deprecated'' \<noteq> JStr [] \<and>
   snd (snd (send_request (client 1) (always (JObj [(''response'', JObj [(''status'', JInt 1)])]))
     conversion_request [])) = Inl (KeyError ''data'')"
  by (simp add: send_request.simps always_def success_body_with_message_def envelope_def
      not_success_def envelope_field_def Response_init_def Let_def
      conversion_request_def Request_init_def)

section \<open>Properties of the classifier\<close>

text \<open>
  C5, as the code has it. \<^verbatim>\<open>cast_error\<close> is a function of the decoded body alone.
  For a dictionary without \<^verbatim>\<open>response\<close>, or whose \<^verbatim>\<open>response\<close> object has no
  \<^verbatim>\<open>status\<close>, it returns the module's generic \<^verbatim>\<open>Error\<close> with the message
  \<^verbatim>\<open>Unexpected error: <body>\<close>. For a body with the \<^verbatim>\<open>response\<close>/\<^verbatim>\<open>status\<close> shape whose
  \<^verbatim>\<open>errorMessage\<close> is a string, it returns \<^verbatim>\<open>APIUsageExceededRateLimit\<close> with that
  string exactly when the string contains \<^verbatim>\<open>API usage exceeded rate limit\<close>, and
  otherwise the generic \<^verbatim>\<open>Error\<close> with that string. The error for a malformed body and
  the error for any other failure are of the same class \<^verbatim>\<open>Error\<close>.
\<close>

theorem cast_error_classification:
  "(map_of kvs ''response'' = None \<longrightarrow>
      cast_error (JObj kvs) = Inr (Error (Unexpected_error (JObj kvs)))) \<and>
   (map_of kvs ''response'' = Some (JObj r) \<and> map_of r ''status'' = None \<longrightarrow>
      cast_error (JObj kvs) = Inr (Error (Unexpected_error (JObj kvs)))) \<and>
   (map_of kvs ''response'' = Some (JObj r) \<and> map_of r ''status'' = Some s \<and>
    map_of r ''errorMessage'' = Some (JStr m) \<longrightarrow>
      cast_error (JObj kvs) =
        Inr (if str_contains ''API usage exceeded rate limit'' m
             then APIUsageExceededRateLimit (JStr m) else Error (Message (JStr m)))) \<and>
   class_of (Error (Unexpected_error b)) = class_of (Error (Message v))"
proof (intro conjI impI)
  assume "map_of kvs ''response'' = None"
  then have "''response'' \<notin> fst ` set kvs" by (simp add: map_of_eq_None_iff)
  then show "cast_error (JObj kvs) = Inr (Error (Unexpected_error (JObj kvs)))"
    by (simp add: cast_error_def)
next
  assume a: "map_of kvs ''response'' = Some (JObj r) \<and> map_of r ''status'' = None"
  then have "''response'' \<in> fst ` set kvs"
    by (metis map_of_eq_None_iff option.distinct(1))
  moreover from a have "''status'' \<notin> fst ` set r"
    by (simp add: map_of_eq_None_iff)
  ultimately have "''response'' \<in> fst ` set kvs" "''status'' \<notin> fst ` set r" by simp_all
  with a show "cast_error (JObj kvs) = Inr (Error (Unexpected_error (JObj kvs)))"
    by (simp add: cast_error_def)
next
  assume a: "map_of kvs ''response'' = Some (JObj r) \<and> map_of r ''status'' = Some s \<and>
    map_of r ''errorMessage'' = Some (JStr m)"
  then have "''response'' \<in> fst ` set kvs" "''status'' \<in> fst ` set r"
    by (metis map_of_eq_None_iff option.distinct(1))+
  with a show "cast_error (JObj kvs) =
        Inr (if str_contains ''API usage exceeded rate limit'' m
             then APIUsageExceededRateLimit (JStr m) else Error (Message (JStr m)))"
    by (simp add: cast_error_def envelope_field_def)
next
  show "class_of (Error (Unexpected_error b)) = class_of (Error (Message v))" by simp
qed

theorem cast_error_classification_witness:
  "cast_error (JObj []) = Inr (Error (Unexpected_error (JObj []))) \<and>
   cast_error (JObj [(''response'', JObj [])])
     = Inr (Error (Unexpected_error (JObj [(''response'', JObj [])]))) \<and>
   cast_error rate_limit_body
     = Inr (APIUsageExceededRateLimit (JStr ''API usage exceeded rate limit'')) \<and>
   cast_error failure_body = Inr (Error (Message (JStr ''Invalid token'')))"
  using cast_error_classification[of "[]"]
    cast_error_classification[of "[(''response'', JObj [])]" "[]"]
    cast_error_classification
      [of "[(''response'', JObj [(''status'', JInt (- 1)), (''httpStatus'', JInt 200),
              (''data'', JNull), (''errors'', JList []),
              (''errorMessage'', JStr ''API usage exceeded rate limit'')])]"
          "[(''status'', JInt (- 1)), (''httpStatus'', JInt 200),
              (''data'', JNull), (''errors'', JList []),
              (''errorMessage'', JStr ''API usage exceeded rate limit'')]"
          "JInt (- 1)" "''API usage exceeded rate limit''"]
    cast_error_classification
      [of "[(''response'', JObj [(''status'', JInt (- 1)), (''httpStatus'', JInt 200),
              (''data'', JNull), (''errors'', JList []),
              (''errorMessage'', JStr ''Invalid token'')])]"
          "[(''status'', JInt (- 1)), (''httpStatus'', JInt 200),
              (''data'', JNull), (''errors'', JList []),
              (''errorMessage'', JStr ''Invalid token'')]"
          "JInt (- 1)" "''Invalid token''"]
  by (simp add: rate_limit_body_def failure_body_def envelope_def)

text \<open>
  C5 as stated fails. A failed body with the \<^verbatim>\<open>response\<close>/\<^verbatim>\<open>status\<close> shape and no
  \<^verbatim>\<open>errorMessage\<close> gets none of the three errors: \<^verbatim>\<open>cast_error\<close> itself raises
  \<^verbatim>\<open>KeyError\<close>. And the error for the malformed body \<^verbatim>\<open>{}\<close> is not of a class of its
  own: it has the class of the error for an ordinary failure.
\<close>

theorem cast_error_counterexample:
  "not_success status_only_body = Inr True \<and>
   cast_error status_only_body = Inl (KeyError ''errorMessage'') \<and>
   cast_error (JObj []) = Inr (Error (Unexpected_error (JObj []))) \<and>
   cast_error failure_body = Inr (Error (Message (JStr ''Invalid token''))) \<and>
   class_of (Error (Unexpected_error (JObj []))) = class_of (Error (Message (JStr ''Invalid token'')))"
  by (simp add: cast_error_def not_success_def status_only_body_def failure_body_def envelope_def
      envelope_field_def)

section \<open>Properties of extraction from a response\<close>

lemma envelope_same_outside_data_refl: "envelope_same_outside_data body body"
  by (cases "py_getitem body ''response''")
     (simp_all add: envelope_same_outside_data_def same_outside_refl)

lemma paged_same_outside_refl: "paged_same_outside k d d"
  by (cases "py_getitem d ''data''")
     (simp_all add: paged_same_outside_def same_outside_refl objects_same_outside_refl)

lemma other_fields_kept_store_data: "other_fields_kept self (store_data self d)"
  by (simp add: other_fields_kept_def store_data_def)

lemma map_of_Some_key: "map_of kvs k = Some v \<Longrightarrow> k \<in> set (map fst kvs)"
  by (metis map_of_eq_None_iff option.distinct(1) set_map)

lemma store_data_shares:
  assumes "shares_data self"
  shows "shares_data (store_data self d) \<and>
         envelope_same_outside_data (json_response self) (json_response (store_data self d))"
proof -
  from assms obtain outer where o: "json_response self = JObj outer"
    by (cases "json_response self") (simp_all add: shares_data_def envelope_field_def)
  from assms o obtain rv where rv: "map_of outer ''response'' = Some rv"
    by (cases "map_of outer ''response''") (simp_all add: shares_data_def envelope_field_def)
  from assms o rv obtain r where "rv = JObj r"
    by (cases rv) (simp_all add: shares_data_def envelope_field_def)
  with rv have r: "map_of outer ''response'' = Some (JObj r)" by simp
  from assms o r have dk: "map_of r ''data'' = Some (data self)"
    by (cases "map_of r ''data''") (simp_all add: shares_data_def envelope_field_def)
  have env: "json_response (store_data self d)
      = JObj (dict_set outer ''response'' (JObj (dict_set r ''data'' d)))"
    using o r by (simp add: store_data_def set_envelope_data_def)
  have "shares_data (store_data self d)"
    unfolding shares_data_def env
    by (simp add: envelope_field_def map_of_dict_set store_data_def)
  moreover have "same_outside ''response'' (JObj outer)
      (JObj (dict_set outer ''response'' (JObj (dict_set r ''data'' d))))"
    using dict_set_same_outside[OF map_of_Some_key[OF r]] by (simp add: same_outside_def)
  moreover have "same_outside ''data'' (JObj r) (JObj (dict_set r ''data'' d))"
    using dict_set_same_outside[OF map_of_Some_key[OF dk]] by (simp add: same_outside_def)
  ultimately show ?thesis
    unfolding env o by (simp add: envelope_same_outside_data_def r map_of_dict_set)
qed

lemma Response_init_shares_data:
  assumes "Response_init req body = Inr self"
  shows "shares_data self"
  using assms
  by (auto simp: Response_init_def shares_data_def split: sum.splits)

lemma Response_extract_one_frame:
  assumes "Response_extract_one self model_name = (Extracted self', res)"
  shows "other_fields_kept self self' \<and>
     same_outside (name_or_target self model_name) (data self) (data self') \<and>
     (shares_data self \<longrightarrow>
        shares_data self' \<and>
        envelope_same_outside_data (json_response self) (json_response self'))"
proof -
  obtain d' r where run: "extract_one (data self) (name_or_target self model_name) = (d', r)"
    by (cases "extract_one (data self) (name_or_target self model_name)")
  with assms have s: "self' = store_data self d'"
    by (simp add: Response_extract_one_def)
  have "data self' = d'" using s by (simp add: store_data_def)
  with extract_one_frame[OF run] s show ?thesis
    by (simp add: other_fields_kept_store_data store_data_shares)
qed

lemma Response_extract_all_frame:
  assumes "Response_extract_all self model_name = (Extracted self', res)"
  shows "other_fields_kept self self' \<and>
     (if py_in ''page'' (data self) = Inr True
      then paged_same_outside (name_or_target self model_name) (data self) (data self')
      else objects_same_outside (name_or_target self model_name) (data self) (data self')) \<and>
     (shares_data self \<longrightarrow>
        shares_data self' \<and>
        envelope_same_outside_data (json_response self) (json_response self'))"
proof -
  have same: ?thesis if "self' = self"
    using that
    by (simp add: other_fields_kept_def paged_same_outside_refl objects_same_outside_refl
        envelope_same_outside_data_refl)
  show ?thesis
  proof (cases "py_in ''page'' (data self)")
    case (Inl e)
    with assms have "self' = self" by (simp add: Response_extract_all_def)
    then show ?thesis by (rule same)
  next
    case (Inr paged)
    show ?thesis
    proof (cases paged)
      case False
      obtain d' r where run: "extract_all (data self) (name_or_target self model_name) = (d', r)"
        by (cases "extract_all (data self) (name_or_target self model_name)")
      with assms Inr False have s: "self' = store_data self d'"
        by (simp add: Response_extract_all_def)
      have "data self' = d'" using s by (simp add: store_data_def)
      with extract_all_frame[OF run] s Inr False show ?thesis
        by (simp add: other_fields_kept_store_data store_data_shares)
    next
      case True
      show ?thesis
      proof (cases "py_getitem (data self) ''data''")
        case (Inl e)
        with assms Inr True have "self' = self" by (simp add: Response_extract_all_def)
        then show ?thesis by (rule same)
      next
        case inner: (Inr inner)
        then obtain kvs where kvs: "data self = JObj kvs"
          by (cases "data self") simp_all
        with inner have ik: "map_of kvs ''data'' = Some inner"
          by (cases "map_of kvs ''data''") simp_all
        obtain inner' r where run: "extract_all inner (name_or_target self model_name) = (inner', r)"
          by (cases "extract_all inner (name_or_target self model_name)")
        with assms Inr True inner kvs
        have s: "self' = store_data self (JObj (dict_set kvs ''data'' inner'))"
          by (simp add: Response_extract_all_def)
        have d': "data self' = JObj (dict_set kvs ''data'' inner')"
          using s by (simp add: store_data_def)
        have "same_outside ''data'' (JObj kvs) (JObj (dict_set kvs ''data'' inner'))"
          using dict_set_same_outside[OF map_of_Some_key[OF ik]] by (simp add: same_outside_def)
        with extract_all_frame[OF run]
        have "paged_same_outside (name_or_target self model_name) (data self) (data self')"
          unfolding d' kvs by (simp add: paged_same_outside_def ik map_of_dict_set)
        with s Inr True show ?thesis
          by (simp add: other_fields_kept_store_data store_data_shares)
      qed
    qed
  qed
qed

text \<open>
  C9, as the code has it, for a first extraction. Let a \<^verbatim>\<open>Response\<close> be as
  \<^verbatim>\<open>Response.__init__\<close> built it from the decoded body, with no extraction made on it
  before. Then \<^verbatim>\<open>extract_one\<close> and \<^verbatim>\<open>extract_all\<close> leave its request, \<^verbatim>\<open>status\<close>,
  \<^verbatim>\<open>httpStatus\<close>, \<^verbatim>\<open>errors\<close> and \<^verbatim>\<open>errorMessage\<close> unchanged, and keep the keys of
  \<^verbatim>\<open>data\<close> and of every object in it in their order. The only values that can differ
  afterwards are the primary scopes: \<^verbatim>\<open>data[model_name]\<close> for \<^verbatim>\<open>extract_one\<close>, and
  \<^verbatim>\<open>object_scope[model_name]\<close> of the objects of the collection for \<^verbatim>\<open>extract_all\<close>
  (the collection being \<^verbatim>\<open>data['data']\<close> for a paged answer). The envelope, which
  holds the same \<^verbatim>\<open>data\<close> object, differs under \<^verbatim>\<open>['response']['data']\<close> only and
  still holds the \<^verbatim>\<open>data\<close> of the response. Nothing is stated of a response that has
  been extracted from before.
\<close>

theorem first_extraction_changes_only_primary_scopes:
  "(Response_init req body = Inr self \<and>
    Response_extract_one self model_name = (Extracted self', res) \<longrightarrow>
      other_fields_kept self self' \<and>
      same_outside (name_or_target self model_name) (data self) (data self') \<and>
      shares_data self' \<and>
      envelope_same_outside_data body (json_response self')) \<and>
   (Response_init req body = Inr self \<and>
    Response_extract_all self model_name = (Extracted self'', res') \<longrightarrow>
      other_fields_kept self self'' \<and>
      (if py_in ''page'' (data self) = Inr True
       then paged_same_outside (name_or_target self model_name) (data self) (data self'')
       else objects_same_outside (name_or_target self model_name) (data self) (data self'')) \<and>
      shares_data self'' \<and>
      envelope_same_outside_data body (json_response self''))"
proof -
  have one: "other_fields_kept self self' \<and>
      same_outside (name_or_target self model_name) (data self) (data self') \<and>
      shares_data self' \<and>
      envelope_same_outside_data body (json_response self')"
    if a: "Response_init req body = Inr self \<and>
      Response_extract_one self model_name = (Extracted self', res)"
  proof -
    from a have sh: "shares_data self" using Response_init_shares_data by blast
    from a have env: "json_response self = body"
      by (auto simp: Response_init_def split: sum.splits)
    from a Response_extract_one_frame[of self model_name self' res] sh env
    show ?thesis by simp
  qed
  have all: "other_fields_kept self self'' \<and>
      (if py_in ''page'' (data self) = Inr True
       then paged_same_outside (name_or_target self model_name) (data self) (data self'')
       else objects_same_outside (name_or_target self model_name) (data self) (data self'')) \<and>
      shares_data self'' \<and>
      envelope_same_outside_data body (json_response self'')"
    if a: "Response_init req body = Inr self \<and>
      Response_extract_all self model_name = (Extracted self'', res')"
  proof -
    from a have sh: "shares_data self" using Response_init_shares_data by blast
    from a have env: "json_response self = body"
      by (auto simp: Response_init_def split: sum.splits)
    from a Response_extract_all_frame[of self model_name self'' res'] sh env
    show ?thesis by simp
  qed
  from one all show ?thesis by blast
qed

text \<open>
  C9 as stated fails, already for a first extraction. The response built from the
  envelope with the data
  \<^verbatim>\<open>{"Conversion": {"id": "5", "payout": "10"}, "Offer": {"id": "2"}}\<close> is left by
  \<^verbatim>\<open>extract_one\<close> with the \<^verbatim>\<open>Offer\<close> scope stored inside the \<^verbatim>\<open>Conversion\<close> scope, in
  the field \<^verbatim>\<open>data\<close> and in the envelope; \<^verbatim>\<open>extract_all\<close> does the same to the object
  of a collection.
\<close>

theorem extraction_mutates_response_counterexample:
  "Response_init conversion_request (envelope (JInt 1) conversion_with_offer (JStr []))
     = Inr conversion_response \<and>
   data conversion_response =
     JObj [(''Conversion'', JObj [(''id'', JStr ''5''), (''payout'', JStr ''10'')]),
           (''Offer'', JObj [(''id'', JStr ''2'')])] \<and>
   data (contents (fst (Response_extract_one conversion_response None))) =
     JObj [(''Conversion'', JObj [(''id'', JStr ''5''), (''payout'', JStr ''10''),
                                   (''Offer'', JObj [(''id'', JStr ''2'')])]),
           (''Offer'', JObj [(''id'', JStr ''2'')])] \<and>
   data (contents (fst (Response_extract_one conversion_response None)))
     \<noteq> data conversion_response \<and>
   json_response (contents (fst (Response_extract_one conversion_response None)))
     \<noteq> json_response conversion_response \<and>
   Response_init conversion_request (envelope (JInt 1) conversion_collection (JStr []))
     = Inr collection_response \<and>
   data (contents (fst (Response_extract_all collection_response None))) =
     JObj [(''1'',
       JObj [(''Conversion'', JObj [(''id'', JStr ''5''), (''payout'', JStr ''10''),
                                     (''Offer'', JObj [(''id'', JStr ''2'')])]),
             (''Offer'', JObj [(''id'', JStr ''2'')])])] \<and>
   data (contents (fst (Response_extract_all collection_response None)))
     \<noteq> data collection_response"
  by (simp add: Response_extract_one_def Response_extract_all_def conversion_response_def
      collection_response_def conversion_collection_def Response_init_def envelope_field_def
      conversion_with_offer_def conversion_request_def Request_init_def name_or_target_def
      extract_one_def extract_all_def extract_scope_def relative_scopes_def store_data_def
      set_envelope_data_def envelope_def
      int_of_str_def strip_def is_space_def parse_nat_def max_str_digits_def is_digit_def
      digit_val_def)

theorem first_extraction_changes_only_primary_scopes_witness:
  "Response_init conversion_request (envelope (JInt 1) conversion_with_offer (JStr []))
     = Inr conversion_response \<and>
   snd (Response_extract_one conversion_response None) =
     Inr (Some [(''id'', JInt 5), (''payout'', JStr ''10''), (''Offer'', JObj [(''id'', JStr ''2'')])]) \<and>
   other_fields_kept conversion_response
     (contents (fst (Response_extract_one conversion_response None))) \<and>
   same_outside ''Conversion'' (data conversion_response)
     (data (contents (fst (Response_extract_one conversion_response None)))) \<and>
   shares_data (contents (fst (Response_extract_one conversion_response None))) \<and>
   envelope_same_outside_data (envelope (JInt 1) conversion_with_offer (JStr []))
     (json_response (contents (fst (Response_extract_one conversion_response None)))) \<and>
   Response_init conversion_request (envelope (JInt 1) conversion_collection (JStr []))
     = Inr collection_response \<and>
   py_in ''page'' (data collection_response) = Inr False \<and>
   other_fields_kept collection_response
     (contents (fst (Response_extract_all collection_response None))) \<and>
   objects_same_outside ''Conversion'' (data collection_response)
     (data (contents (fst (Response_extract_all collection_response None)))) \<and>
   shares_data (contents (fst (Response_extract_all collection_response None)))"
proof -
  have i1: "Response_init conversion_request (envelope (JInt 1) conversion_with_offer (JStr []))
     = Inr conversion_response"
    by (simp add: Response_init_def envelope_field_def envelope_def conversion_response_def)
  have i2: "Response_init conversion_request (envelope (JInt 1) conversion_collection (JStr []))
     = Inr collection_response"
    by (simp add: Response_init_def envelope_field_def envelope_def collection_response_def)
  have n1: "name_or_target conversion_response None = ''Conversion''"
    by (simp add: name_or_target_def conversion_response_def conversion_request_def
        Request_init_def)
  have n2: "name_or_target collection_response None = ''Conversion''"
    by (simp add: name_or_target_def collection_response_def conversion_request_def
        Request_init_def)
  have pg: "py_in ''page'' (data collection_response) = Inr False"
    by (simp add: collection_response_def conversion_collection_def)
  have res: "snd (Response_extract_one conversion_response None) =
     Inr (Some [(''id'', JInt 5), (''payout'', JStr ''10''), (''Offer'', JObj [(''id'', JStr ''2'')])])"
    by (simp add: Response_extract_one_def conversion_response_def
        conversion_with_offer_def conversion_request_def Request_init_def name_or_target_def
        extract_one_def extract_scope_def relative_scopes_def
        int_of_str_def strip_def is_space_def parse_nat_def max_str_digits_def is_digit_def
        digit_val_def)
  have e1: "Response_init conversion_request (envelope (JInt 1) conversion_with_offer (JStr []))
       = Inr conversion_response \<and>
     Response_extract_one conversion_response None =
      (Extracted (contents (fst (Response_extract_one conversion_response None))),
       snd (Response_extract_one conversion_response None))"
    using i1 by simp
  have e2: "Response_init conversion_request (envelope (JInt 1) conversion_collection (JStr []))
       = Inr collection_response \<and>
     Response_extract_all collection_response None =
      (Extracted (contents (fst (Response_extract_all collection_response None))),
       snd (Response_extract_all collection_response None))"
    using i2 by simp
  note one = first_extraction_changes_only_primary_scopes
      [of conversion_request "envelope (JInt 1) conversion_with_offer (JStr [])"
          conversion_response None
          "contents (fst (Response_extract_one conversion_response None))"
          "snd (Response_extract_one conversion_response None)"
          "contents (fst (Response_extract_all conversion_response None))"
          "snd (Response_extract_all conversion_response None)",
       THEN conjunct1, THEN mp, OF e1]
  note all = first_extraction_changes_only_primary_scopes
      [of conversion_request "envelope (JInt 1) conversion_collection (JStr [])"
          collection_response None
          "contents (fst (Response_extract_one collection_response None))"
          "snd (Response_extract_one collection_response None)"
          "contents (fst (Response_extract_all collection_response None))"
          "snd (Response_extract_all collection_response None)",
       THEN conjunct2, THEN mp, OF e2]
  from one all i1 i2 pg res
  show ?thesis by (simp add: n1 n2)
qed

end
